theory Spec2Isabelle
  imports Complex_Main
begin

section \<open>Numbers\<close>

text \<open>
  The toolbox computes with float64 values.  A value is modelled as a real number or
  one of the IEEE specials; rounding, overflow and the sign of zero are not modelled.
  The operations follow the IEEE rules that numpy applies to float64 scalars and
  arrays: a division by zero gives an infinity or nan (with a warning, no exception),
  the logarithm of a negative number is nan, every comparison with nan is false.
\<close>

datatype fl = Fin real | PInf | MInf | NaN

definition fl_neg :: "fl \<Rightarrow> fl" where
  "fl_neg a = (case a of Fin x \<Rightarrow> Fin (- x) | PInf \<Rightarrow> MInf | MInf \<Rightarrow> PInf | NaN \<Rightarrow> NaN)"

definition fl_add :: "fl \<Rightarrow> fl \<Rightarrow> fl" where
  "fl_add a b =
     (case a of
        NaN \<Rightarrow> NaN
      | Fin x \<Rightarrow> (case b of Fin y \<Rightarrow> Fin (x + y) | PInf \<Rightarrow> PInf | MInf \<Rightarrow> MInf | NaN \<Rightarrow> NaN)
      | PInf \<Rightarrow> (case b of Fin y \<Rightarrow> PInf | PInf \<Rightarrow> PInf | MInf \<Rightarrow> NaN | NaN \<Rightarrow> NaN)
      | MInf \<Rightarrow> (case b of Fin y \<Rightarrow> MInf | PInf \<Rightarrow> NaN | MInf \<Rightarrow> MInf | NaN \<Rightarrow> NaN))"

definition fl_sub :: "fl \<Rightarrow> fl \<Rightarrow> fl" where
  "fl_sub a b = fl_add a (fl_neg b)"

text \<open>An infinity with the sign of a real factor; a zero factor gives nan.\<close>

definition inf_signed :: "real \<Rightarrow> fl" where
  "inf_signed x = (if 0 < x then PInf else if x < 0 then MInf else NaN)"

definition fl_mul :: "fl \<Rightarrow> fl \<Rightarrow> fl" where
  "fl_mul a b =
     (case a of
        NaN \<Rightarrow> NaN
      | Fin x \<Rightarrow> (case b of Fin y \<Rightarrow> Fin (x * y) | PInf \<Rightarrow> inf_signed x
                   | MInf \<Rightarrow> inf_signed (- x) | NaN \<Rightarrow> NaN)
      | PInf \<Rightarrow> (case b of Fin y \<Rightarrow> inf_signed y | PInf \<Rightarrow> PInf | MInf \<Rightarrow> MInf | NaN \<Rightarrow> NaN)
      | MInf \<Rightarrow> (case b of Fin y \<Rightarrow> inf_signed (- y) | PInf \<Rightarrow> MInf | MInf \<Rightarrow> PInf
                  | NaN \<Rightarrow> NaN))"

definition fl_div :: "fl \<Rightarrow> fl \<Rightarrow> fl" where
  "fl_div a b =
     (case a of
        NaN \<Rightarrow> NaN
      | Fin x \<Rightarrow> (case b of Fin y \<Rightarrow> (if y = 0 then inf_signed x else Fin (x / y))
                   | PInf \<Rightarrow> Fin 0 | MInf \<Rightarrow> Fin 0 | NaN \<Rightarrow> NaN)
      | PInf \<Rightarrow> (case b of Fin y \<Rightarrow> (if 0 \<le> y then PInf else MInf) | PInf \<Rightarrow> NaN
                  | MInf \<Rightarrow> NaN | NaN \<Rightarrow> NaN)
      | MInf \<Rightarrow> (case b of Fin y \<Rightarrow> (if 0 \<le> y then MInf else PInf) | PInf \<Rightarrow> NaN
                  | MInf \<Rightarrow> NaN | NaN \<Rightarrow> NaN))"

definition fl_abs :: "fl \<Rightarrow> fl" where
  "fl_abs a = (case a of Fin x \<Rightarrow> Fin \<bar>x\<bar> | PInf \<Rightarrow> PInf | MInf \<Rightarrow> PInf | NaN \<Rightarrow> NaN)"

definition fl_exp :: "fl \<Rightarrow> fl" where
  "fl_exp a = (case a of Fin x \<Rightarrow> Fin (exp x) | PInf \<Rightarrow> PInf | MInf \<Rightarrow> Fin 0 | NaN \<Rightarrow> NaN)"

text \<open>numpy's \<open>log\<close> on a float64: nan below zero, minus infinity at zero.\<close>

definition fl_log :: "fl \<Rightarrow> fl" where
  "fl_log a =
     (case a of
        Fin x \<Rightarrow> (if 0 < x then Fin (ln x) else if x = 0 then MInf else NaN)
      | PInf \<Rightarrow> PInf | MInf \<Rightarrow> NaN | NaN \<Rightarrow> NaN)"

definition fl_le :: "fl \<Rightarrow> fl \<Rightarrow> bool" where
  "fl_le a b =
     (case a of
        NaN \<Rightarrow> False
      | Fin x \<Rightarrow> (case b of Fin y \<Rightarrow> x \<le> y | PInf \<Rightarrow> True | MInf \<Rightarrow> False | NaN \<Rightarrow> False)
      | PInf \<Rightarrow> (case b of PInf \<Rightarrow> True | _ \<Rightarrow> False)
      | MInf \<Rightarrow> (case b of NaN \<Rightarrow> False | _ \<Rightarrow> True))"

definition fl_lt :: "fl \<Rightarrow> fl \<Rightarrow> bool" where
  "fl_lt a b =
     (case a of
        NaN \<Rightarrow> False
      | Fin x \<Rightarrow> (case b of Fin y \<Rightarrow> x < y | PInf \<Rightarrow> True | MInf \<Rightarrow> False | NaN \<Rightarrow> False)
      | PInf \<Rightarrow> False
      | MInf \<Rightarrow> (case b of NaN \<Rightarrow> False | MInf \<Rightarrow> False | _ \<Rightarrow> True))"

definition fl_ge :: "fl \<Rightarrow> fl \<Rightarrow> bool" where
  "fl_ge a b = fl_le b a"

definition fl_gt :: "fl \<Rightarrow> fl \<Rightarrow> bool" where
  "fl_gt a b = fl_lt b a"

text \<open>\<open>a != b\<close>: true as soon as one side is nan.\<close>

definition fl_ne :: "fl \<Rightarrow> fl \<Rightarrow> bool" where
  "fl_ne a b = (a = NaN \<or> b = NaN \<or> a \<noteq> b)"

definition isinf :: "fl \<Rightarrow> bool" where
  "isinf a = (a = PInf \<or> a = MInf)"

text \<open>
  \<open>numpy.isreal\<close> tests whether the imaginary part is zero.  A float64 has none, nan
  included, so the test holds for every value of this type.
\<close>

definition isreal :: "fl \<Rightarrow> bool" where
  "isreal a = True"

text \<open>\<open>numpy.max\<close> of an array: nan as soon as one element is nan.\<close>

definition fl_max :: "fl \<Rightarrow> fl \<Rightarrow> fl" where
  "fl_max a b = (if a = NaN \<or> b = NaN then NaN else if fl_le a b then b else a)"

fun np_max :: "fl list \<Rightarrow> fl" where
  "np_max [] = NaN"
| "np_max [x] = x"
| "np_max (x # y # ys) = fl_max x (np_max (y # ys))"

section \<open>Errors\<close>

text \<open>
  Every failure of the source is a \<open>ValueError\<close> told apart by its message, or an
  exception of numpy or of Python's indexing.
\<close>

datatype error =
    BiasTooLow                      \<comment> \<open>'bias too low'\<close>
  | NonRealRate                     \<comment> \<open>'reconstruction condition not satisfied'\<close>
  | ReconstructionConditionViolated \<comment> \<open>'... not satisfied;try raising b or reducing d'\<close>
  | ResolutionError                 \<comment> \<open>'encoding time resolution must ...'\<close>
  | UnrecognizedQuadratureMethod    \<comment> \<open>'unrecognized quadrature method'\<close>
  | InsufficientSpikes              \<comment> \<open>'s must contain at least 2 elements'\<close>
  | NoSpikeData                     \<comment> \<open>'no spike data given'\<close>
  | ZeroSizeReduction               \<comment> \<open>numpy: maximum of an empty array\<close>
  | NegativeDimensions              \<comment> \<open>numpy: an array shape with a negative entry\<close>
  | IndexError                      \<comment> \<open>Python: list index out of range\<close>
  | IntConversionError              \<comment> \<open>Python: \<open>int\<close> of an infinity or of nan\<close>
  | ZeroDivisionError               \<comment> \<open>Python: float or complex division by zero\<close>
  | ArangeLengthError               \<comment> \<open>numpy: \<open>arange\<close> cannot compute its length\<close>

section \<open>Recoverability check (\<open>iaf_recoverable\<close>)\<close>

definition iaf_recoverable :: "fl list \<Rightarrow> fl \<Rightarrow> fl \<Rightarrow> fl \<Rightarrow> fl \<Rightarrow> fl \<Rightarrow> error + bool" where
  "iaf_recoverable u bw b d R C =
     (if u = [] then Inl ZeroSizeReduction
      else
        let c = np_max (map fl_abs u) in
        if fl_ge c b then Inl BiasTooLow
        else
          let r = fl_div (fl_mul (fl_mul (fl_mul R C)
                    (fl_log (fl_sub (Fin 1) (fl_div d (fl_sub d (fl_mul (fl_sub b c) R))))))
                    bw) (Fin pi);
              e = fl_div d (fl_mul (fl_sub b c) R)
          in if \<not> isreal r then Inl NonRealRate
             else if fl_ge r (fl_div (fl_sub (Fin 1) e) (fl_add (Fin 1) e))
               then Inl ReconstructionConditionViolated
             else Inr True)"

section \<open>Encoder (\<open>iaf_encode\<close>)\<close>

text \<open>Reading \<open>u[i]\<close> for an index \<open>i \<ge> 0\<close>; out of range raises.\<close>

definition get :: "'a list \<Rightarrow> nat \<Rightarrow> error + 'a" where
  "get xs i = (if i < length xs then Inr (xs ! i) else Inl IndexError)"

text \<open>Python's \<open>int\<close> of a float truncates towards zero and rejects infinities and nan.\<close>

definition py_int :: "fl \<Rightarrow> error + int" where
  "py_int a =
     (case a of
        Fin x \<Rightarrow> Inr (if 0 \<le> x then \<lfloor>x\<rfloor> else \<lceil>x\<rceil>)
      | _ \<Rightarrow> Inl IntConversionError)"

text \<open>
  The three integration rules, the closures \<open>compute_y\<close> of the source.  The scalar
  parameters are Python floats and the samples \<open>u[i]\<close> numpy floats, so only the quotient
  \<open>-dt/RC\<close> of the leaky rule, taken between two Python floats, raises on a zero divisor.
\<close>

definition compute_y_rect :: "fl list \<Rightarrow> fl \<Rightarrow> fl \<Rightarrow> fl \<Rightarrow> fl \<Rightarrow> nat \<Rightarrow> error + fl" where
  "compute_y_rect u dt b C y i =
     (case get u i of
        Inl err \<Rightarrow> Inl err
      | Inr ui \<Rightarrow> Inr (fl_add y (fl_div (fl_mul dt (fl_add b ui)) C)))"

definition compute_y_trapz :: "fl list \<Rightarrow> fl \<Rightarrow> fl \<Rightarrow> fl \<Rightarrow> fl \<Rightarrow> nat \<Rightarrow> error + fl" where
  "compute_y_trapz u dt b C y i =
     (case get u i of
        Inl err \<Rightarrow> Inl err
      | Inr ui \<Rightarrow>
          (case get u (i + 1) of
             Inl err \<Rightarrow> Inl err
           | Inr uj \<Rightarrow>
               Inr (fl_add y (fl_div (fl_mul dt (fl_add b (fl_div (fl_add ui uj) (Fin 2)))) C))))"

definition compute_y_leaky :: "fl list \<Rightarrow> fl \<Rightarrow> fl \<Rightarrow> fl \<Rightarrow> fl \<Rightarrow> fl \<Rightarrow> nat \<Rightarrow> error + fl" where
  "compute_y_leaky u dt b R RC y i =
     (if RC = Fin 0 then Inl ZeroDivisionError
      else
        let decay = fl_exp (fl_div (fl_neg dt) RC) in
        case get u i of
          Inl err \<Rightarrow> Inl err
        | Inr ui \<Rightarrow>
            Inr (fl_add (fl_mul y decay)
                   (fl_mul (fl_mul R (fl_sub (Fin 1) decay)) (fl_add b ui))))"

text \<open>
  The loop \<open>for i in xrange(last)\<close> over its index list, with the integrator value
  \<open>y\<close>, the time since the last spike and the spikes found so far.
\<close>

fun encode_loop ::
  "(fl \<Rightarrow> nat \<Rightarrow> error + fl) \<Rightarrow> fl \<Rightarrow> fl \<Rightarrow> nat list \<Rightarrow> fl \<Rightarrow> fl \<Rightarrow> fl list
     \<Rightarrow> error + (fl list \<times> fl \<times> fl)" where
  "encode_loop compute_y dt d [] y interval s = Inr (s, y, interval)"
| "encode_loop compute_y dt d (i # is) y interval s =
     (case compute_y y i of
        Inl err \<Rightarrow> Inl err
      | Inr y' \<Rightarrow>
          (let interval' = fl_add interval dt in
           if fl_ge y' d then encode_loop compute_y dt d is (Fin 0) (Fin 0) (s @ [interval'])
           else encode_loop compute_y dt d is y' interval' s))"

text \<open>
  \<open>iaf_encode\<close> with \<open>full_output\<close> set: the spike train with the final \<open>y\<close> and
  \<open>interval\<close>.  \<open>resample\<close> is scipy's, taken as a parameter.  The bound \<open>nu\<close> of the
  loop is read before the signal is resampled and is not read again.
\<close>

definition iaf_encode_full ::
  "(fl list \<Rightarrow> nat \<Rightarrow> fl list) \<Rightarrow> fl list \<Rightarrow> fl \<Rightarrow> fl \<Rightarrow> fl \<Rightarrow> fl \<Rightarrow> fl \<Rightarrow> fl \<Rightarrow> fl \<Rightarrow> fl \<Rightarrow> string
     \<Rightarrow> error + (fl list \<times> fl \<times> fl)" where
  "iaf_encode_full resample u dt b d R C dte y interval quad_method =
     (let nu = length u in
      if nu = 0 then Inr ([], y, interval)
      else if fl_gt dte dt then Inl ResolutionError
      else if fl_lt dte (Fin 0) then Inl ResolutionError
      else
        (case (if fl_ne dte (Fin 0)
               then (case py_int (fl_div dt dte) of
                       Inl err \<Rightarrow> Inl err
                     | Inr k \<Rightarrow> Inr (resample u (nat (int (length u) * k)), dte))
               else Inr (u, dt)) of
           Inl err \<Rightarrow> Inl err
         | Inr (u', dt') \<Rightarrow>
             if isinf R then
               if quad_method = ''rect''
                 then encode_loop (compute_y_rect u' dt' b C) dt' d [0..<nu] y interval []
               else if quad_method = ''trapz''
                 then encode_loop (compute_y_trapz u' dt' b C) dt' d [0..<nu - 1] y interval []
               else Inl UnrecognizedQuadratureMethod
             else
               encode_loop (compute_y_leaky u' dt' b R (fl_mul R C)) dt' d [0..<nu] y interval []))"

text \<open>\<open>iaf_encode\<close> without \<open>full_output\<close>: the spike train alone.\<close>

definition iaf_encode ::
  "(fl list \<Rightarrow> nat \<Rightarrow> fl list) \<Rightarrow> fl list \<Rightarrow> fl \<Rightarrow> fl \<Rightarrow> fl \<Rightarrow> fl \<Rightarrow> fl \<Rightarrow> fl \<Rightarrow> fl \<Rightarrow> fl \<Rightarrow> string
     \<Rightarrow> error + fl list" where
  "iaf_encode resample u dt b d R C dte y interval quad_method =
     (case iaf_encode_full resample u dt b d R C dte y interval quad_method of
        Inl err \<Rightarrow> Inl err
      | Inr (s, y', interval') \<Rightarrow> Inr s)"

text \<open>\<open>numpy.cumsum\<close>: the running sums, the absolute spike times of a spike train.\<close>

fun cumsum_from :: "fl \<Rightarrow> fl list \<Rightarrow> fl list" where
  "cumsum_from acc [] = []"
| "cumsum_from acc (x # xs) = fl_add acc x # cumsum_from (fl_add acc x) xs"

fun cumsum :: "fl list \<Rightarrow> fl list" where
  "cumsum [] = []"
| "cumsum (x # xs) = x # cumsum_from x xs"

text \<open>A spike train whose intervals are all finite and at least \<open>h\<close> long.\<close>

definition long_intervals :: "real \<Rightarrow> fl list \<Rightarrow> bool" where
  "long_intervals h s = (\<forall>x\<in>set s. \<exists>r. x = Fin r \<and> h \<le> r)"

subsection \<open>The integration loop as the specification words it\<close>

text \<open>
  The reference loop of the specification: one update rule per configuration, applied at
  each index of a range; the interval counter grows by \<open>dt\<close> at each step; when
  \<open>y \<ge> d\<close> the interval is emitted and both are reset.
\<close>

definition spec_rule_rect :: "fl list \<Rightarrow> fl \<Rightarrow> fl \<Rightarrow> fl \<Rightarrow> fl \<Rightarrow> nat \<Rightarrow> fl" where
  "spec_rule_rect u dt b C y i = fl_add y (fl_div (fl_mul dt (fl_add b (u ! i))) C)"

definition spec_rule_trapz :: "fl list \<Rightarrow> fl \<Rightarrow> fl \<Rightarrow> fl \<Rightarrow> fl \<Rightarrow> nat \<Rightarrow> fl" where
  "spec_rule_trapz u dt b C y i =
     fl_add y (fl_div (fl_mul dt (fl_add b (fl_div (fl_add (u ! i) (u ! (i + 1))) (Fin 2)))) C)"

definition spec_rule_leaky :: "fl list \<Rightarrow> fl \<Rightarrow> fl \<Rightarrow> fl \<Rightarrow> fl \<Rightarrow> fl \<Rightarrow> nat \<Rightarrow> fl" where
  "spec_rule_leaky u dt b R C y i =
     fl_add (fl_mul y (fl_exp (fl_div (fl_neg dt) (fl_mul R C))))
       (fl_mul (fl_mul R (fl_sub (Fin 1) (fl_exp (fl_div (fl_neg dt) (fl_mul R C)))))
          (fl_add b (u ! i)))"

definition spec_step ::
  "(fl \<Rightarrow> nat \<Rightarrow> fl) \<Rightarrow> fl \<Rightarrow> fl \<Rightarrow> nat \<Rightarrow> fl list \<times> fl \<times> fl \<Rightarrow> fl list \<times> fl \<times> fl" where
  "spec_step rule dt d i st =
     (case st of (s, y, interval) \<Rightarrow>
        if fl_ge (rule y i) d then (s @ [fl_add interval dt], Fin 0, Fin 0)
        else (s, rule y i, fl_add interval dt))"

definition spec_encode ::
  "(fl \<Rightarrow> nat \<Rightarrow> fl) \<Rightarrow> fl \<Rightarrow> fl \<Rightarrow> nat \<Rightarrow> fl \<Rightarrow> fl \<Rightarrow> fl list \<times> fl \<times> fl" where
  "spec_encode rule dt d n y interval = fold (spec_step rule dt d) [0..<n] ([], y, interval)"


section \<open>Dense, fast and population decoders (\<open>iaf.py\<close>)\<close>

text \<open>\<open>(ts[0:-1]+ts[1:])/2\<close>: the midpoints between consecutive spike times.\<close>

definition midpoints :: "fl list \<Rightarrow> fl list" where
  "midpoints ts = map (\<lambda>(a, c). fl_div (fl_add a c) (Fin 2)) (zip (butlast ts) (tl ts))"

text \<open>
  An entry of the reconstruction matrix is a closed form over scipy's sine integral
  \<open>sici\<close> or over the exponential integral \<open>ei\<close>.  Both are library functions, so an
  entry is recorded as the closed form the code evaluates, with its arguments:
  \<^item> \<open>SiEntry x1 x0\<close> is \<open>sici(x1)[0]/pi - sici(x0)[0]/pi\<close>;
  \<^item> \<open>EiInside RC bw t0 t1 th\<close> is the expression with the factor \<open>-1j/4\<close> and the eight
    logarithms, taken when \<open>t0 < th\<close> and \<open>th < t1\<close>;
  \<^item> \<open>EiOutside RC bw t0 t1 th\<close> is the expression with the factor \<open>-1j/2\<close>.
\<close>

datatype gentry =
    SiEntry fl fl
  | EiInside fl fl fl fl fl
  | EiOutside fl fl fl fl fl

definition si_entry :: "fl \<Rightarrow> fl list \<Rightarrow> fl list \<Rightarrow> nat \<Rightarrow> nat \<Rightarrow> gentry" where
  "si_entry bw ts tsh i j =
     SiEntry (fl_mul bw (fl_sub (ts ! (i + 1)) (tsh ! j))) (fl_mul bw (fl_sub (ts ! i) (tsh ! j)))"

definition ei_entry :: "fl \<Rightarrow> fl \<Rightarrow> fl list \<Rightarrow> fl list \<Rightarrow> nat \<Rightarrow> nat \<Rightarrow> gentry" where
  "ei_entry RC bw ts tsh i j =
     (if fl_lt (ts ! i) (tsh ! j) \<and> fl_lt (tsh ! j) (ts ! (i + 1))
      then EiInside RC bw (ts ! i) (ts ! (i + 1)) (tsh ! j)
      else EiOutside RC bw (ts ! i) (ts ! (i + 1)) (tsh ! j))"

text \<open>
  \<open>arange(0, dur, dt)\<close>, the time grid.  numpy computes the length as the ceiling of
  the Python quotient \<open>(dur - 0)/dt\<close>, which raises for a zero \<open>dt\<close>; a quotient that
  is infinite or nan has no length.
\<close>

definition np_arange :: "fl \<Rightarrow> fl \<Rightarrow> error + fl list" where
  "np_arange stop step =
     (if step = Fin 0 then Inl ZeroDivisionError
      else
        case fl_div stop step of
          Fin v \<Rightarrow> Inr (map (\<lambda>i. fl_mul (Fin (real i)) step) [0..<nat \<lceil>v\<rceil>])
        | _ \<Rightarrow> Inl ArangeLengthError)"

text \<open>
  The decoders are modelled up to the linear system they build: the time grid, the
  midpoints, the matrix and the quanta.  The solve (\<open>pinv\<close>) and the reconstruction by
  sinc functions are numpy calls on that system.

  In the leaky branch every matrix entry divides the Python complex
  \<open>(1-1j*RC*bw)*(ts[i]-tsh[j])\<close> by the Python float \<open>RC\<close>.  There is at least one
  entry, since \<open>ns \<ge> 2\<close>, so a zero \<open>RC\<close> raises before the quanta are computed.
\<close>

record decode_system =
  ds_t :: "fl list"
  ds_tsh :: "fl list"
  ds_G :: "gentry list list"
  ds_q :: "fl list"

definition iaf_decode ::
  "fl list \<Rightarrow> fl \<Rightarrow> fl \<Rightarrow> fl \<Rightarrow> fl \<Rightarrow> fl \<Rightarrow> fl \<Rightarrow> fl \<Rightarrow> error + decode_system" where
  "iaf_decode s dur dt bw b d R C =
     (let ns = length s in
      if ns < 2 then Inl InsufficientSpikes
      else
        let ts = cumsum s;
            tsh = midpoints ts;
            nsh = length tsh
        in case np_arange dur dt of
             Inl err \<Rightarrow> Inl err
           | Inr t \<Rightarrow>
               let RC = fl_mul R C in
               if isinf R then
                 Inr \<lparr>ds_t = t, ds_tsh = tsh,
                      ds_G = map (\<lambda>i. map (\<lambda>j. si_entry bw ts tsh i j) [0..<nsh]) [0..<nsh],
                      ds_q = map (\<lambda>x. fl_sub (fl_mul C d) (fl_mul b x)) (tl s)\<rparr>
               else if RC = Fin 0 then Inl ZeroDivisionError
               else
                 Inr \<lparr>ds_t = t, ds_tsh = tsh,
                      ds_G = map (\<lambda>i. map (\<lambda>j. ei_entry RC bw ts tsh i j) [0..<nsh]) [0..<nsh],
                      ds_q = map (\<lambda>x. fl_mul C (fl_add d (fl_mul (fl_mul b R)
                               (fl_sub (fl_exp (fl_div (fl_neg x) RC)) (Fin 1))))) (tl s)\<rparr>)"

text \<open>
  The fast decoder converts \<open>M\<close> to a float and forms \<open>jbwM = 1j*bw/M\<close>, a Python
  complex divided by a Python float, before the quanta: \<open>M = 0\<close> raises there.
\<close>

record fast_system =
  fs_t :: "fl list"
  fs_ts :: "fl list"
  fs_tsh :: "fl list"
  fs_q :: "fl list"
  fs_a :: fl

definition iaf_decode_fast ::
  "fl list \<Rightarrow> fl \<Rightarrow> fl \<Rightarrow> fl \<Rightarrow> int \<Rightarrow> fl \<Rightarrow> fl \<Rightarrow> fl \<Rightarrow> fl \<Rightarrow> error + fast_system" where
  "iaf_decode_fast s dur dt bw M b d R C =
     (let ns = length s in
      if ns < 2 then Inl InsufficientSpikes
      else
        let M' = Fin (real_of_int M);
            ts = cumsum s;
            tsh = midpoints ts
        in case np_arange dur dt of
             Inl err \<Rightarrow> Inl err
           | Inr t \<Rightarrow>
               let RC = fl_mul R C in
               if M' = Fin 0 then Inl ZeroDivisionError
               else
                 let q = (if isinf R then map (\<lambda>x. fl_sub (fl_mul C d) (fl_mul b x)) (tl s)
                          else map (\<lambda>x. fl_mul C (fl_add d (fl_mul (fl_mul b R)
                                 (fl_sub (fl_exp (fl_div (fl_neg x) RC)) (Fin 1))))) (tl s));
                     a = fl_div bw (fl_mul (Fin pi) (fl_add (fl_mul (Fin 2) M') (Fin 1)))
                 in Inr \<lparr>fs_t = t, fs_ts = ts, fs_tsh = tsh, fs_q = q, fs_a = a\<rparr>)"

text \<open>
  The population decoder.  \<open>pop_blocks\<close> holds the block \<open>G_block\<close> of each pair
  \<open>(l, m)\<close>; \<open>pop_G\<close> is the matrix \<open>G\<close> the blocks are copied into, block \<open>(l, m)\<close> at
  the rows of encoder \<open>l\<close> and the columns of encoder \<open>m\<close>; \<open>pop_q\<close> stacks the quanta.
  Its time grid is built after the solve and is not part of the system.

  The leaky branch works through the encoders in order.  For encoder \<open>l\<close> it first
  fills the blocks of row \<open>l\<close>: when the encoder has a midpoint (then block \<open>(l, l)\<close>
  has an entry) it reads \<open>R_list[l]\<close> and \<open>C_list[l]\<close> and divides a Python complex by
  their product.  Then it computes the quanta of encoder \<open>l\<close>, reading all four
  parameter lists.  \<open>pop_row_error\<close> is the first failure of that work, if any.
\<close>

definition pop_row_error ::
  "nat list \<Rightarrow> fl list \<Rightarrow> fl list \<Rightarrow> fl list \<Rightarrow> fl list \<Rightarrow> nat \<Rightarrow> error option" where
  "pop_row_error Nsh_list b_list d_list R_list C_list l =
     (if 0 < Nsh_list ! l \<and> (length R_list \<le> l \<or> length C_list \<le> l) then Some IndexError
      else if 0 < Nsh_list ! l \<and> fl_mul (R_list ! l) (C_list ! l) = Fin 0
        then Some ZeroDivisionError
      else if length C_list \<le> l \<or> length d_list \<le> l \<or> length b_list \<le> l \<or> length R_list \<le> l
        then Some IndexError
      else None)"

fun first_error :: "error option list \<Rightarrow> error option" where
  "first_error [] = None"
| "first_error (None # es) = first_error es"
| "first_error (Some err # es) = Some err"

record pop_system =
  pop_tsh :: "fl list list"
  pop_blocks :: "gentry list list list list"
  pop_G :: "gentry list list"
  pop_q :: "fl list"

definition assemble :: "gentry list list list list \<Rightarrow> gentry list list" where
  "assemble blocks =
     concat (map (\<lambda>row. map (\<lambda>n. concat (map (\<lambda>blk. blk ! n) row))
                           [0..<(if row = [] then 0 else length (hd row))]) blocks)"

definition iaf_decode_pop ::
  "fl list list \<Rightarrow> fl \<Rightarrow> fl list \<Rightarrow> fl list \<Rightarrow> fl list \<Rightarrow> fl list \<Rightarrow> error + pop_system" where
  "iaf_decode_pop s_list bw b_list d_list R_list C_list =
     (let M = length s_list in
      if M = 0 then Inl NoSpikeData
      else
        let ts_list = map cumsum s_list;
            tsh_list = map midpoints ts_list;
            Nsh_list = map length tsh_list
        in if list_all isinf R_list then
             if length C_list < M \<or> length d_list < M \<or> length b_list < M then Inl IndexError
             else
               let blocks = map (\<lambda>l. map (\<lambda>m.
                              map (\<lambda>n. map (\<lambda>k. si_entry bw (ts_list ! l) (tsh_list ! m) n k)
                                             [0..<Nsh_list ! m]) [0..<Nsh_list ! l])
                              [0..<M]) [0..<M]
               in Inr \<lparr>pop_tsh = tsh_list, pop_blocks = blocks, pop_G = assemble blocks,
                       pop_q = concat (map (\<lambda>l.
                          map (\<lambda>x. fl_sub (fl_mul (C_list ! l) (d_list ! l)) (fl_mul (b_list ! l) x))
                              (tl (s_list ! l))) [0..<M])\<rparr>
           else
             case first_error (map (pop_row_error Nsh_list b_list d_list R_list C_list) [0..<M]) of
               Some err \<Rightarrow> Inl err
             | None \<Rightarrow>
               let blocks = map (\<lambda>l. map (\<lambda>m.
                              map (\<lambda>n. map (\<lambda>k.
                                     ei_entry (fl_mul (R_list ! l) (C_list ! l)) bw
                                       (ts_list ! l) (tsh_list ! m) n k)
                                             [0..<Nsh_list ! m]) [0..<Nsh_list ! l])
                              [0..<M]) [0..<M]
               in Inr \<lparr>pop_tsh = tsh_list, pop_blocks = blocks, pop_G = assemble blocks,
                       pop_q = concat (map (\<lambda>l.
                          map (\<lambda>x. fl_mul (C_list ! l) (fl_add (d_list ! l)
                                 (fl_mul (fl_mul (b_list ! l) (R_list ! l))
                                    (fl_sub (fl_exp (fl_div (fl_neg x)
                                       (fl_mul (R_list ! l) (C_list ! l)))) (Fin 1)))))
                              (tl (s_list ! l))) [0..<M])\<rparr>)"

subsection \<open>The quanta as the specification words them\<close>

definition spec_quanta :: "fl list \<Rightarrow> fl \<Rightarrow> fl \<Rightarrow> fl \<Rightarrow> fl \<Rightarrow> fl list" where
  "spec_quanta s b d R C =
     (if isinf R then map (\<lambda>x. fl_sub (fl_mul C d) (fl_mul b x)) (tl s)
      else map (\<lambda>x. fl_mul C (fl_add d (fl_mul (fl_mul b R)
                  (fl_sub (fl_exp (fl_div (fl_neg x) (fl_mul R C))) (Fin 1))))) (tl s))"

text \<open>The leaky formula alone, applied whatever \<open>R\<close> is.\<close>

definition leaky_quanta :: "fl list \<Rightarrow> fl \<Rightarrow> fl \<Rightarrow> fl \<Rightarrow> fl \<Rightarrow> fl list" where
  "leaky_quanta s b d R C =
     map (\<lambda>x. fl_mul C (fl_add d (fl_mul (fl_mul b R)
            (fl_sub (fl_exp (fl_div (fl_neg x) (fl_mul R C))) (Fin 1))))) (tl s)"

section \<open>Vandermonde decoders (\<open>vtdm.py\<close>)\<close>

text \<open>
  A complex128 value: a complex number or nan.  \<open>np_exp_j x\<close> is numpy's \<open>exp\<close> at the
  purely imaginary \<open>1j*x\<close>, a point of the unit circle when \<open>x\<close> is finite.
  \<open>cpow z j\<close> is the power \<open>z**j\<close>, which is one at \<open>j = 0\<close> for every \<open>z\<close>.
\<close>

datatype cfl = CFin complex | CNaN

definition np_exp_j :: "fl \<Rightarrow> cfl" where
  "np_exp_j a = (case a of Fin x \<Rightarrow> CFin (cis x) | _ \<Rightarrow> CNaN)"

definition cpow :: "cfl \<Rightarrow> nat \<Rightarrow> cfl" where
  "cpow z j = (if j = 0 then CFin 1 else case z of CFin c \<Rightarrow> CFin (c ^ j) | CNaN \<Rightarrow> CNaN)"

text \<open>\<open>exp(1j*2*bw*ts[:-1]/n)\<close>: one node for each spike time but the last.\<close>

definition vander_nodes :: "fl \<Rightarrow> fl list \<Rightarrow> int \<Rightarrow> cfl list" where
  "vander_nodes bw ts n =
     map (\<lambda>t. np_exp_j (fl_div (fl_mul (fl_mul (Fin 2) bw) t) (Fin (real_of_int n)))) (butlast ts)"

text \<open>\<open>fliplr(vander(z))\<close>: row \<open>i\<close> holds the powers \<open>z_i**0, z_i**1, ...\<close> of node \<open>i\<close>.\<close>

definition vander_matrix :: "cfl list \<Rightarrow> cfl list list" where
  "vander_matrix z = map (\<lambda>zi. map (\<lambda>j. cpow zi j) [0..<length z]) z"

text \<open>\<open>triu(ones((ns, ns)))\<close>, for \<open>ns \<ge> 0\<close>.\<close>

definition triu_ones :: "nat \<Rightarrow> fl list list" where
  "triu_ones ns = map (\<lambda>i. map (\<lambda>j. if i \<le> j then Fin 1 else Fin 0) [0..<ns]) [0..<ns]"

text \<open>
  The decoders are modelled up to the system handed to the solver \<open>bpa.bpa\<close>, whose
  module is not part of the sources at hand: the nodes, the matrices \<open>V\<close>, \<open>P\<close> and the
  diagonal of \<open>D\<close>, and the vector the right-hand side is built from (the quanta \<open>q\<close>,
  or \<open>r\<close> in the threshold-insensitive variant).
\<close>

record vander_system =
  vs_ns :: int
  vs_n :: int
  vs_z :: "cfl list"
  vs_V :: "cfl list list"
  vs_P :: "fl list list"
  vs_D :: "cfl list"
  vs_q :: "fl list"

definition alt_sign :: "nat \<Rightarrow> fl" where
  "alt_sign i = (if even i then Fin 1 else Fin (- 1))"

definition asdm_decode_vander ::
  "fl list \<Rightarrow> fl \<Rightarrow> fl \<Rightarrow> fl \<Rightarrow> fl \<Rightarrow> int \<Rightarrow> error + vander_system" where
  "asdm_decode_vander s bw b d k sgn_first =
     (let ts = cumsum s;
          ns = int (length s) - 1;
          n = ns - 1;
          z = vander_nodes bw ts n;
          V = vander_matrix z
      in if ns < 0 then Inl NegativeDimensions
         else
           let P = triu_ones (nat ns);
               D = map (\<lambda>t. np_exp_j (fl_mul bw t)) (butlast ts);
               q = (if sgn_first = - 1
                    then map (\<lambda>i. fl_mul (alt_sign i)
                           (fl_sub (fl_mul (fl_mul (Fin 2) k) d) (fl_mul b (tl s ! i))))
                           [0..<nat ns]
                    else map (\<lambda>i. fl_mul (alt_sign (i + 1))
                           (fl_sub (fl_mul (fl_mul (Fin 2) k) d) (fl_mul b (tl s ! i))))
                           [0..<nat ns])
           in Inr \<lparr>vs_ns = ns, vs_n = n, vs_z = z, vs_V = V, vs_P = P, vs_D = D, vs_q = q\<rparr>)"

text \<open>
  The threshold-insensitive variant also builds the vectors \<open>a\<close> (ones at every second
  place counted from the end) and \<open>bh\<close> (a one at the last place, which does not exist
  when \<open>ns = 0\<close>), and \<open>r = ex*s[1:]\<close> with alternating signs.
\<close>

definition asdm_decode_vander_ins ::
  "fl list \<Rightarrow> fl \<Rightarrow> fl \<Rightarrow> int \<Rightarrow> error + (vander_system \<times> fl list \<times> fl list)" where
  "asdm_decode_vander_ins s bw b sgn_first =
     (let ts = cumsum s;
          ns = int (length s) - 1;
          n = ns - 1;
          z = vander_nodes bw ts n;
          V = vander_matrix z;
          D = map (\<lambda>t. np_exp_j (fl_mul bw t)) (butlast ts)
      in if ns < 0 then Inl NegativeDimensions
         else
           let P = triu_ones (nat ns);
               a = map (\<lambda>i. if even (nat ns - 1 - i) then Fin 1 else Fin 0) [0..<nat ns]
           in if ns = 0 then Inl IndexError
              else
                let bh = map (\<lambda>i. if i = nat ns - 1 then Fin 1 else Fin 0) [0..<nat ns];
                    r = (if sgn_first = - 1
                         then map (\<lambda>i. fl_mul (fl_neg (alt_sign i)) (tl s ! i)) [0..<nat ns]
                         else map (\<lambda>i. fl_mul (alt_sign i) (tl s ! i)) [0..<nat ns])
                in Inr (\<lparr>vs_ns = ns, vs_n = n, vs_z = z, vs_V = V, vs_P = P, vs_D = D,
                         vs_q = r\<rparr>, a, bh))"

definition iaf_decode_vander ::
  "fl list \<Rightarrow> fl \<Rightarrow> fl \<Rightarrow> fl \<Rightarrow> fl \<Rightarrow> fl \<Rightarrow> error + vander_system" where
  "iaf_decode_vander s bw b d R C =
     (let ts = cumsum s;
          ns = int (length s) - 1;
          n = ns - 1;
          z = vander_nodes bw ts n;
          V = vander_matrix z
      in if ns < 0 then Inl NegativeDimensions
         else
           let P = triu_ones (nat ns);
               D = map (\<lambda>t. np_exp_j (fl_mul bw t)) (butlast ts);
               q = (if isinf R then map (\<lambda>x. fl_sub (fl_mul C d) (fl_mul b x)) (tl s)
                    else map (\<lambda>x. fl_mul C (fl_add d (fl_mul (fl_mul b R)
                           (fl_sub (fl_exp (fl_div (fl_neg x) (fl_mul R C))) (Fin 1))))) (tl s))
           in Inr \<lparr>vs_ns = ns, vs_n = n, vs_z = z, vs_V = V, vs_P = P, vs_D = D, vs_q = q\<rparr>)"

subsection \<open>Dropping the final spike, as the specification words it\<close>

text \<open>
  A system built from a spike train \<open>s\<close> drops the final spike when it has
  \<open>ns = len(s) - 1\<close> nodes, node \<open>i\<close> is \<open>exp(j 2 bw ts_i / n)\<close> with \<open>n = ns - 1\<close> and
  \<open>ts = cumsum(s)\<close>, for the spike times but the last, and the matrix is the \<open>ns\<close> by
  \<open>ns\<close> Vandermonde matrix of the nodes.
\<close>

definition drops_last_spike :: "fl \<Rightarrow> fl list \<Rightarrow> vander_system \<Rightarrow> bool" where
  "drops_last_spike bw s sys \<longleftrightarrow>
     vs_ns sys = int (length s) - 1 \<and> vs_n sys = vs_ns sys - 1
     \<and> length (vs_z sys) = length s - 1
     \<and> (\<forall>i<length s - 1.
           vs_z sys ! i = np_exp_j (fl_div (fl_mul (fl_mul (Fin 2) bw) (cumsum s ! i))
                                     (Fin (real_of_int (vs_n sys)))))
     \<and> length (vs_V sys) = length s - 1
     \<and> (\<forall>i<length s - 1. length (vs_V sys ! i) = length s - 1
           \<and> (\<forall>j<length s - 1. vs_V sys ! i ! j = cpow (vs_z sys ! i) j))"

section \<open>Properties\<close>

lemmas fl_defs = fl_neg_def fl_add_def fl_sub_def inf_signed_def fl_mul_def fl_div_def fl_abs_def
  fl_exp_def fl_log_def fl_le_def fl_lt_def fl_ge_def fl_gt_def fl_ne_def isinf_def isreal_def
  fl_max_def

lemma upt_2: "[0..<2] = [0, 1]"
  by (simp add: upt_rec)

lemma upt_3: "[0..<3] = [0, 1, 2]"
  by (simp add: upt_rec)

lemma upt_6: "[0..<6] = [0, 1, 2, 3, 4, 5]"
  by (simp add: upt_rec)

subsection \<open>The encoder and the reference loop\<close>

lemma encode_loop_fold:
  assumes "\<And>y i. i \<in> set js \<Longrightarrow> compute_y y i = Inr (rule y i)"
  shows "encode_loop compute_y dt d js y interval s
           = Inr (fold (spec_step rule dt d) js (s, y, interval))"
  using assms
proof (induction js arbitrary: y interval s)
  case Nil
  show ?case by simp
next
  case (Cons j js)
  have step: "compute_y y j = Inr (rule y j)" using Cons.prems by simp
  have rest: "\<And>y i. i \<in> set js \<Longrightarrow> compute_y y i = Inr (rule y i)"
    using Cons.prems by simp
  show ?case
    by (simp add: step spec_step_def Let_def Cons.IH [OF rest])
qed

lemma rect_rule: "i < length u \<Longrightarrow> compute_y_rect u dt b C y i = Inr (spec_rule_rect u dt b C y i)"
  by (simp add: compute_y_rect_def spec_rule_rect_def get_def)

lemma trapz_rule:
  "i + 1 < length u \<Longrightarrow> compute_y_trapz u dt b C y i = Inr (spec_rule_trapz u dt b C y i)"
  by (simp add: compute_y_trapz_def spec_rule_trapz_def get_def)

lemma leaky_rule:
  "i < length u \<Longrightarrow> fl_mul R C \<noteq> Fin 0 \<Longrightarrow>
     compute_y_leaky u dt b R (fl_mul R C) y i = Inr (spec_rule_leaky u dt b R C y i)"
  by (simp add: compute_y_leaky_def spec_rule_leaky_def get_def Let_def)

lemma rect_loop:
  "encode_loop (compute_y_rect u dt b C) dt d [0..<length u] y interval s
     = Inr (fold (spec_step (spec_rule_rect u dt b C) dt d) [0..<length u] (s, y, interval))"
  by (rule encode_loop_fold) (simp add: rect_rule)

lemma trapz_loop:
  "encode_loop (compute_y_trapz u dt b C) dt d [0..<length u - 1] y interval s
     = Inr (fold (spec_step (spec_rule_trapz u dt b C) dt d) [0..<length u - 1] (s, y, interval))"
  by (rule encode_loop_fold) (simp add: trapz_rule)

lemma leaky_loop:
  "fl_mul R C \<noteq> Fin 0 \<Longrightarrow>
   encode_loop (compute_y_leaky u dt b R (fl_mul R C)) dt d [0..<length u] y interval s
     = Inr (fold (spec_step (spec_rule_leaky u dt b R C) dt d) [0..<length u] (s, y, interval))"
  by (rule encode_loop_fold) (simp add: leaky_rule)

lemma no_resampling:
  "\<not> fl_lt dt (Fin 0) \<Longrightarrow> \<not> fl_gt (Fin 0) dt \<and> \<not> fl_lt (Fin 0) (Fin 0) \<and> \<not> fl_ne (Fin 0) (Fin 0)"
  by (simp add: fl_gt_def fl_lt_def fl_ne_def)

lemma encode_rect:
  assumes "\<not> fl_lt dt (Fin 0)" and "u \<noteq> []" and "isinf R"
  shows "iaf_encode_full resample u dt b d R C (Fin 0) y interval ''rect''
           = Inr (spec_encode (spec_rule_rect u dt b C) dt d (length u) y interval)"
  using no_resampling [OF assms(1)] assms(2,3)
  by (simp add: iaf_encode_full_def spec_encode_def rect_loop)

lemma encode_trapz:
  assumes "\<not> fl_lt dt (Fin 0)" and "u \<noteq> []" and "isinf R"
  shows "iaf_encode_full resample u dt b d R C (Fin 0) y interval ''trapz''
           = Inr (spec_encode (spec_rule_trapz u dt b C) dt d (length u - 1) y interval)"
  using no_resampling [OF assms(1)] assms(2,3) trapz_loop [of u dt b C d y interval "[]"]
  by (simp add: iaf_encode_full_def spec_encode_def)

lemma encode_leaky:
  assumes "\<not> fl_lt dt (Fin 0)" and "u \<noteq> []" and "\<not> isinf R" and "fl_mul R C \<noteq> Fin 0"
  shows "iaf_encode_full resample u dt b d R C (Fin 0) y interval quad_method
           = Inr (spec_encode (spec_rule_leaky u dt b R C) dt d (length u) y interval)"
  using no_resampling [OF assms(1)] assms(2,3,4)
  by (simp add: iaf_encode_full_def spec_encode_def leaky_loop)

text \<open>
  Without resampling (\<open>dte = 0\<close>, the default) the encoder returns what the
  reference loop returns: for an ideal neuron the rectangular rule at every index
  \<open>0 .. len(u)-1\<close> or the trapezoidal rule at the indices \<open>0 .. len(u)-2\<close>; for a leaky
  neuron the exponential Euler rule at every index, whatever the quadrature tag.  An
  empty signal gives an empty spike train.
\<close>

lemma encode_reference_loop_without_resampling:
  assumes "\<not> fl_lt dt (Fin 0)"
  shows "iaf_encode resample [] dt b d R C (Fin 0) y interval quad_method = Inr []
       \<and> (u \<noteq> [] \<and> isinf R \<longrightarrow>
            iaf_encode_full resample u dt b d R C (Fin 0) y interval ''rect''
              = Inr (spec_encode (spec_rule_rect u dt b C) dt d (length u) y interval)
          \<and> iaf_encode_full resample u dt b d R C (Fin 0) y interval ''trapz''
              = Inr (spec_encode (spec_rule_trapz u dt b C) dt d (length u - 1) y interval))
       \<and> (u \<noteq> [] \<and> \<not> isinf R \<and> fl_mul R C \<noteq> Fin 0 \<longrightarrow>
            iaf_encode_full resample u dt b d R C (Fin 0) y interval quad_method
              = Inr (spec_encode (spec_rule_leaky u dt b R C) dt d (length u) y interval))"
proof (intro conjI impI)
  show "iaf_encode resample [] dt b d R C (Fin 0) y interval quad_method = Inr []"
    by (simp add: iaf_encode_def iaf_encode_full_def)
next
  assume "u \<noteq> [] \<and> isinf R"
  then show "iaf_encode_full resample u dt b d R C (Fin 0) y interval ''rect''
              = Inr (spec_encode (spec_rule_rect u dt b C) dt d (length u) y interval)"
    using encode_rect [OF assms] by blast
next
  assume "u \<noteq> [] \<and> isinf R"
  then show "iaf_encode_full resample u dt b d R C (Fin 0) y interval ''trapz''
              = Inr (spec_encode (spec_rule_trapz u dt b C) dt d (length u - 1) y interval)"
    using encode_trapz [OF assms] by blast
next
  assume "u \<noteq> [] \<and> \<not> isinf R \<and> fl_mul R C \<noteq> Fin 0"
  then show "iaf_encode_full resample u dt b d R C (Fin 0) y interval quad_method
              = Inr (spec_encode (spec_rule_leaky u dt b R C) dt d (length u) y interval)"
    using encode_leaky [OF assms] by blast
qed

text \<open>
  The signal \<open>[1, 3, 1]\<close> with \<open>dt = 1\<close>, \<open>b = 0\<close>, \<open>d = 2\<close> and an ideal neuron: the
  rectangular rule fires once, the trapezoidal rule twice.
\<close>

lemma encode_reference_loop_example:
  "\<not> fl_lt (Fin 1) (Fin 0)
   \<and> [Fin 1, Fin 3, Fin 1] \<noteq> [] \<and> isinf PInf
   \<and> iaf_encode_full (\<lambda>u n. u) [Fin 1, Fin 3, Fin 1] (Fin 1) (Fin 0) (Fin 2) PInf (Fin 1)
        (Fin 0) (Fin 0) (Fin 0) ''rect'' = Inr ([Fin 2], Fin 1, Fin 1)
   \<and> iaf_encode_full (\<lambda>u n. u) [Fin 1, Fin 3, Fin 1] (Fin 1) (Fin 0) (Fin 2) PInf (Fin 1)
        (Fin 0) (Fin 0) (Fin 0) ''trapz'' = Inr ([Fin 1, Fin 1], Fin 0, Fin 0)"
  using encode_reference_loop_without_resampling [of "Fin 1" "\<lambda>u n. u" "Fin 0" "Fin 2" PInf "Fin 1" "Fin 0" "Fin 0"
      "''rect''" "[Fin 1, Fin 3, Fin 1]"]
  by (simp add: spec_encode_def spec_step_def spec_rule_rect_def spec_rule_trapz_def upt_3 upt_2
      fl_defs)

text \<open>
  Claim C1.  The encoder is to run the reference loop over every index of the signal
  it integrates.  When \<open>dte \<noteq> 0\<close> the signal is resampled to \<open>len(u) * int(dt/dte)\<close>
  samples with step \<open>dte\<close>, but the bound of the loop is the length read before the
  resampling.  For the constant signal \<open>[1, 1, 1]\<close> with \<open>dt = 1\<close>, \<open>dte = 1/2\<close>,
  \<open>b = 0\<close>, \<open>d = 3/4\<close>, \<open>C = 1\<close>, an ideal neuron and the rectangular rule, the
  resampled signal has six samples (the resampling of a constant signal is constant).
  The reference loop over its six indices fires three times; the encoder stops after
  three indices, half of the signal, and returns one spike.
\<close>

theorem resampled_signal_cut_short:
  "iaf_encode_full (\<lambda>u n. replicate n (Fin 1)) [Fin 1, Fin 1, Fin 1] (Fin 1) (Fin 0) (Fin (3/4))
     PInf (Fin 1) (Fin (1/2)) (Fin 0) (Fin 0) ''rect'' = Inr ([Fin 1], Fin (1/2), Fin (1/2))
   \<and> iaf_encode (\<lambda>u n. replicate n (Fin 1)) [Fin 1, Fin 1, Fin 1] (Fin 1) (Fin 0) (Fin (3/4))
     PInf (Fin 1) (Fin (1/2)) (Fin 0) (Fin 0) ''rect'' = Inr [Fin 1]
   \<and> spec_encode (spec_rule_rect (replicate 6 (Fin 1)) (Fin (1/2)) (Fin 0) (Fin 1)) (Fin (1/2))
     (Fin (3/4)) 6 (Fin 0) (Fin 0) = ([Fin 1, Fin 1, Fin 1], Fin 0, Fin 0)"
  by (simp add: iaf_encode_def iaf_encode_full_def compute_y_rect_def get_def py_int_def
      spec_encode_def spec_step_def spec_rule_rect_def upt_3 upt_6 fl_defs Let_def)

subsection \<open>The recoverability check\<close>

text \<open>
  Claim C5.  The checker is to fail with \<open>NonRealRate\<close> when the rate \<open>r\<close> is not real.
  For \<open>u = [0]\<close>, \<open>bw = 1\<close>, \<open>b = 1\<close>, \<open>d = 2\<close>, \<open>R = 1\<close>, \<open>C = 1\<close> the rate is
  \<open>ln (1 - 2/(2 - 1)) / pi\<close>, the logarithm of \<open>-1\<close>, which is no real number.  numpy's
  \<open>log\<close> returns nan there, \<open>isreal\<close> accepts it, the comparison with nan is false, and
  the checker reports success.
\<close>

theorem iaf_recoverable_log_of_negative:
  "iaf_recoverable [Fin 0] (Fin 1) (Fin 1) (Fin 2) (Fin 1) (Fin 1) = Inr True"
  by (simp add: iaf_recoverable_def fl_defs)

text \<open>On float64 arguments the branch that raises \<open>NonRealRate\<close> is never taken.\<close>

lemma iaf_recoverable_never_NonRealRate:
  "iaf_recoverable u bw b d R C \<noteq> Inl NonRealRate"
  by (simp add: iaf_recoverable_def isreal_def Let_def)

lemma fl_max_Fin: "fl_max (Fin x) (Fin y) = Fin (max x y)"
  by (simp add: fl_max_def fl_le_def max_def)

lemma np_max_map_Fin: "xs \<noteq> [] \<Longrightarrow> np_max (map Fin xs) = Fin (Max (set xs))"
proof (induction xs rule: induct_list012)
  case 1
  then show ?case by simp
next
  case (2 x)
  show ?case by simp
next
  case (3 x y zs)
  have "np_max (map Fin (y # zs)) = Fin (Max (set (y # zs)))"
    using 3 by simp
  then have "np_max (map Fin (x # y # zs)) = Fin (max x (Max (set (y # zs))))"
    by (simp add: fl_max_Fin)
  also have "max x (Max (set (y # zs))) = Max (set (x # y # zs))"
    by simp
  finally show ?case .
qed

lemma np_max_Fin:
  assumes "us \<noteq> []"
  shows "np_max (map fl_abs (map Fin us)) = Fin (Max (abs ` set us))"
proof -
  have "map fl_abs (map Fin us) = map Fin (map abs us)"
    by (simp add: fl_abs_def)
  moreover have "np_max (map Fin (map abs us)) = Fin (Max (set (map abs us)))"
    by (rule np_max_map_Fin) (simp add: assms)
  ultimately show ?thesis by (simp only: set_map)
qed

lemma recoverable_valid_range:
  assumes "us \<noteq> []" and "c = Max (abs ` set us)" and "c < b" and "0 < d" and "d < (b - c) * R"
  shows "iaf_recoverable (map Fin us) (Fin bw) (Fin b) (Fin d) (Fin R) (Fin C) = Inr True
           \<longleftrightarrow> R * C * ln (1 - d / (d - (b - c) * R)) * bw / pi
                 < (1 - d / ((b - c) * R)) / (1 + d / ((b - c) * R))"
proof -
  let ?x = "(b - c) * R"
  have x: "0 < ?x" "d - ?x \<noteq> 0" using assms by auto
  have arg: "0 < 1 - d / (d - ?x)"
  proof -
    have "d / (d - ?x) < 0" using assms by (simp add: divide_neg_neg divide_pos_neg)
    then show ?thesis by simp
  qed
  have e: "1 + d / ?x \<noteq> 0"
  proof -
    have "0 < d / ?x" using assms x by simp
    then show ?thesis by simp
  qed
  have cb: "\<not> b \<le> c" using assms(3) by (simp only: not_le)
  have mx: "np_max (map fl_abs (map Fin us)) = Fin c"
    using np_max_Fin [OF assms(1)] assms(2) by simp
  have ne: "map Fin us \<noteq> []" using assms(1) by simp
  show ?thesis
    unfolding iaf_recoverable_def Let_def mx
    using x arg e cb ne
    by (simp add: fl_defs not_le)
qed


lemma rate_antimono:
  assumes "0 < d'" "d' \<le> d" "d < x" "x \<le> (x'::real)"
  shows "ln (1 - d' / (d' - x')) \<le> ln (1 - d / (d - x))"
proof -
  have pos: "0 < x - d" "0 < x' - d'" "0 < x" "0 < x'" using assms by linarith+
  have a: "1 - d / (d - x) = x / (x - d)" using pos by (simp add: field_simps)
  have a': "1 - d' / (d' - x') = x' / (x' - d')" using pos by (simp add: field_simps)
  have "x * d' \<le> x' * d" using assms pos by (simp add: mult_mono)
  then have "x' * (x - d) \<le> x * (x' - d')" by (simp add: algebra_simps)
  then have le: "x' / (x' - d') \<le> x / (x - d)" using pos by (simp add: field_simps)
  have "0 < x' / (x' - d')" using pos by simp
  then show ?thesis unfolding a a' using le by (rule_tac ln_mono) auto
qed

lemma bound_ratio:
  assumes "0 < (x::real)"
  shows "(1 - d / x) / (1 + d / x) = (x - d) / (x + d)"
proof -
  have n: "1 - d / x = (x - d) / x" using assms by (simp add: diff_divide_distrib)
  have m: "1 + d / x = (x + d) / x" using assms by (simp add: add_divide_distrib)
  show ?thesis unfolding n m using assms by simp
qed

lemma bound_mono:
  assumes "0 < d'" "d' \<le> d" "d < x" "x \<le> (x'::real)"
  shows "(1 - d / x) / (1 + d / x) \<le> (1 - d' / x') / (1 + d' / x')"
proof -
  have pos: "0 < x" "0 < x'" "0 < x + d" "0 < x' + d'" using assms by linarith+
  have b: "(1 - d / x) / (1 + d / x) = (x - d) / (x + d)" using pos by (simp add: bound_ratio)
  have b': "(1 - d' / x') / (1 + d' / x') = (x' - d') / (x' + d')"
    using pos by (simp add: bound_ratio)
  have "x * d' \<le> x' * d" using assms pos by (simp add: mult_mono)
  then have "(x - d) * (x' + d') \<le> (x' - d') * (x + d)" by (simp add: algebra_simps)
  then show ?thesis unfolding b b' using pos by (simp add: field_simps)
qed

text \<open>
  Where the neuron can fire on the whole signal, \<open>(b - max|u|) R > d\<close>, with positive
  bandwidth, resistance, capacitance and threshold, the check is monotone: a larger
  bias \<open>b'\<close> and a smaller positive threshold \<open>d'\<close> keep a recoverable signal
  recoverable.
\<close>

lemma recoverable_monotone_when_firing:
  assumes us: "us \<noteq> []" and c: "c = Max (abs ` set us)"
    and pos: "0 < bw" "0 < R" "0 < C"
    and fire: "c < b" "d < (b - c) * R"
    and b': "b \<le> b'" and d': "0 < d'" "d' \<le> d"
  shows "(iaf_recoverable (map Fin us) (Fin bw) (Fin b) (Fin d) (Fin R) (Fin C) = Inr True
            \<longrightarrow> iaf_recoverable (map Fin us) (Fin bw) (Fin b') (Fin d') (Fin R) (Fin C) = Inr True)
       \<and> (iaf_recoverable (map Fin us) (Fin bw) (Fin b') (Fin d') (Fin R) (Fin C) \<noteq> Inr True
            \<longrightarrow> iaf_recoverable (map Fin us) (Fin bw) (Fin b) (Fin d) (Fin R) (Fin C) \<noteq> Inr True)"
proof -
  let ?x = "(b - c) * R" and ?x' = "(b' - c) * R"
  have xx: "?x \<le> ?x'" using b' pos by (simp add: mult_right_mono)
  have d0: "0 < d" using d' by simp
  have fire': "c < b'" "d' < ?x'" using fire b' d' xx by auto
  have lo: "iaf_recoverable (map Fin us) (Fin bw) (Fin b) (Fin d) (Fin R) (Fin C) = Inr True
           \<longleftrightarrow> R * C * ln (1 - d / (d - ?x)) * bw / pi < (1 - d / ?x) / (1 + d / ?x)"
    by (rule recoverable_valid_range [OF us c fire(1) d0 fire(2)])
  have hi: "iaf_recoverable (map Fin us) (Fin bw) (Fin b') (Fin d') (Fin R) (Fin C) = Inr True
           \<longleftrightarrow> R * C * ln (1 - d' / (d' - ?x')) * bw / pi < (1 - d' / ?x') / (1 + d' / ?x')"
    by (rule recoverable_valid_range [OF us c fire'(1) d'(1) fire'(2)])
  have k: "0 < R * C * bw / pi" using pos by simp
  have "ln (1 - d' / (d' - ?x')) \<le> ln (1 - d / (d - ?x))"
    by (rule rate_antimono [OF d' fire(2) xx])
  then have "(R * C * bw / pi) * ln (1 - d' / (d' - ?x')) \<le> (R * C * bw / pi) * ln (1 - d / (d - ?x))"
    using k by (simp only: mult_le_cancel_left_pos)
  then have r: "R * C * ln (1 - d' / (d' - ?x')) * bw / pi \<le> R * C * ln (1 - d / (d - ?x)) * bw / pi"
    by (simp add: mult_ac)
  have bd: "(1 - d / ?x) / (1 + d / ?x) \<le> (1 - d' / ?x') / (1 + d' / ?x')"
    by (rule bound_mono [OF d' fire(2) xx])
  have imp: "iaf_recoverable (map Fin us) (Fin bw) (Fin b) (Fin d) (Fin R) (Fin C) = Inr True
            \<Longrightarrow> iaf_recoverable (map Fin us) (Fin bw) (Fin b') (Fin d') (Fin R) (Fin C) = Inr True"
    unfolding lo hi using r bd by linarith
  then show ?thesis by blast
qed

lemma recoverable_example:
  "iaf_recoverable (map Fin [0]) (Fin 1) (Fin 4) (Fin 1) (Fin 1) (Fin 1) = Inr True"
proof -
  have "ln (4 / 3 :: real) \<le> ln 2" by (rule ln_mono) simp_all
  then have "ln (4 / 3 :: real) < 1" using ln_2_less_1 by linarith
  moreover have "2 \<le> pi" by (rule pi_ge_two)
  ultimately have "ln (4 / 3 :: real) < 3 / 5 * pi" by linarith
  then have "ln (4 / 3 :: real) / pi < 3 / 5"
    by (simp add: pos_divide_less_eq)
  then show ?thesis
    using recoverable_valid_range [of "[0]" 0 4 1 1 1 1] by simp
qed

text \<open>
  The signal \<open>[0]\<close> with \<open>bw = R = C = 1\<close>: recoverable at \<open>b = 4\<close>, \<open>d = 1\<close>, hence at
  \<open>b = 5\<close>, \<open>d = 1/2\<close>.
\<close>

lemma recoverable_monotone_example:
  "[0::real] \<noteq> [] \<and> (0::real) = Max (abs ` set [0]) \<and> (0::real) < 1 \<and> (0::real) < 4
   \<and> (1::real) < (4 - 0) * 1 \<and> (4::real) \<le> 5 \<and> (0::real) < 1/2 \<and> (1/2::real) \<le> 1
   \<and> iaf_recoverable (map Fin [0]) (Fin 1) (Fin 4) (Fin 1) (Fin 1) (Fin 1) = Inr True
   \<and> iaf_recoverable (map Fin [0]) (Fin 1) (Fin 5) (Fin (1/2)) (Fin 1) (Fin 1) = Inr True"
  using recoverable_monotone_when_firing [of "[0]" 0 1 1 1 4 1 5 "1/2"] recoverable_example
  by simp

lemma ln_four_thirds: "1 / 4 \<le> ln (4 / 3 :: real)"
proof -
  have "ln (3 / 4 :: real) \<le> 3 / 4 - 1" by (rule ln_le_minus_one) simp
  moreover have "ln (4 / 3 :: real) = - ln (3 / 4)"
    using ln_inverse [of "3 / 4 :: real"] by simp
  ultimately show ?thesis by simp
qed

lemma rate_above_bound: "3 / 5 \<le> ln (4 / 3 :: real) * 100 / pi"
proof -
  have "3 / 5 * pi \<le> 25" using pi_less_4 by simp
  also have "\<dots> \<le> ln (4 / 3 :: real) * 100" using ln_four_thirds by simp
  finally show ?thesis by (simp add: pos_le_divide_eq)
qed

text \<open>
  Claim C6.  Raising the bias is never to turn a recoverable signal into one that is
  not.  For \<open>u = [0]\<close>, \<open>bw = 100\<close>, \<open>d = R = C = 1\<close> the checker reports success at
  \<open>b = 1/2\<close>, where the neuron cannot reach the threshold and the rate is the
  logarithm of \<open>-1\<close>, and fails at the larger bias \<open>b = 4\<close>, where the rate
  \<open>100 ln (4/3) / pi\<close> exceeds the bound \<open>3/5\<close>.
\<close>

theorem raising_bias_loses_recoverability:
  "iaf_recoverable [Fin 0] (Fin 100) (Fin (1/2)) (Fin 1) (Fin 1) (Fin 1) = Inr True
   \<and> iaf_recoverable [Fin 0] (Fin 100) (Fin 4) (Fin 1) (Fin 1) (Fin 1)
       = Inl ReconstructionConditionViolated"
  using rate_above_bound
  by (simp add: iaf_recoverable_def fl_defs)

subsection \<open>The encoder's failures\<close>

lemma exp_minus_one_le_half: "exp (- 1 :: real) \<le> 1 / 2"
proof -
  have "1 + (1::real) \<le> exp 1" by (rule exp_ge_add_one_self)
  then have "2 \<le> exp (1::real)" by simp
  then have "1 / exp (1::real) \<le> 1 / 2" by (simp add: field_simps)
  then show ?thesis by (simp add: exp_minus inverse_eq_divide)
qed

lemma valid_dte:
  assumes "0 \<le> dter" and "dter \<le> dtr"
  shows "\<not> fl_gt (Fin dter) (Fin dtr)" and "\<not> fl_lt (Fin dter) (Fin 0)"
    and "fl_ne (Fin dter) (Fin 0) \<longrightarrow> (\<exists>k. py_int (fl_div (Fin dtr) (Fin dter)) = Inr k)"
  using assms by (simp_all add: fl_gt_def fl_lt_def fl_ne_def py_int_def fl_div_def)

text \<open>
  Claim C7, as amended.  For a non-empty signal, a valid \<open>dte\<close> (\<open>0 \<le> dte \<le> dt\<close>) and
  an ideal neuron (\<open>R\<close> infinite), every quadrature tag other than \<open>'rect'\<close> and
  \<open>'trapz'\<close> makes the encoder fail with \<open>UnrecognizedQuadratureMethod\<close>.
\<close>

theorem unrecognized_method_ideal:
  assumes "u \<noteq> []" and "isinf R"
    and "quad_method \<noteq> ''rect''" and "quad_method \<noteq> ''trapz''"
    and "0 \<le> dter" and "dter \<le> dtr"
  shows "iaf_encode resample u (Fin dtr) b d R C (Fin dter) y interval quad_method
           = Inl UnrecognizedQuadratureMethod"
proof -
  show ?thesis
  proof (cases "fl_ne (Fin dter) (Fin 0)")
    case True
    then obtain k where k: "py_int (fl_div (Fin dtr) (Fin dter)) = Inr k"
      using valid_dte(3) [OF assms(5,6)] by blast
    show ?thesis
      using assms(1-4) valid_dte(1,2) [OF assms(5,6)] k True
      by (simp add: iaf_encode_def iaf_encode_full_def Let_def)
  next
    case False
    then show ?thesis
      using assms(1-4) valid_dte(1,2) [OF assms(5,6)]
      by (simp add: iaf_encode_def iaf_encode_full_def Let_def)
  qed
qed

text \<open>
  The tag \<open>'simpson'\<close> with an ideal neuron.
\<close>

theorem unrecognized_method_ideal_witness:
  "[Fin 0] \<noteq> [] \<and> isinf PInf \<and> ''simpson'' \<noteq> ''rect'' \<and> ''simpson'' \<noteq> ''trapz''
   \<and> (0::real) \<le> 0 \<and> (0::real) \<le> 1
   \<and> iaf_encode (\<lambda>u n. u) [Fin 0] (Fin 1) (Fin 2) (Fin 1) PInf (Fin 1) (Fin 0) (Fin 0) (Fin 0)
        ''simpson'' = Inl UnrecognizedQuadratureMethod"
  using unrecognized_method_ideal [of "[Fin 0]" PInf "''simpson''" 0 1 "\<lambda>u n. u" "Fin 2" "Fin 1"
      "Fin 1" "Fin 0" "Fin 0"]
  by (simp add: isinf_def)

text \<open>
  Claim C7 as stated fails for a leaky neuron: the tag is not read when \<open>R\<close> is finite.
  With \<open>u = [0]\<close>, \<open>dt = 1\<close>, \<open>b = 2\<close>, \<open>d = 1\<close>, \<open>R = C = 1\<close> and the tag \<open>'simpson'\<close>
  the exponential Euler rule gives \<open>y = 2 (1 - exp (-1)) \<ge> 1\<close> and the encoder returns
  the spike train \<open>[1]\<close>.
\<close>

theorem leaky_ignores_method:
  "iaf_encode (\<lambda>u n. u) [Fin 0] (Fin 1) (Fin 2) (Fin 1) (Fin 1) (Fin 1) (Fin 0) (Fin 0) (Fin 0)
     ''simpson'' = Inr [Fin 1]
   \<and> iaf_encode (\<lambda>u n. u) [Fin 0] (Fin 1) (Fin 2) (Fin 1) (Fin 1) (Fin 1) (Fin 0) (Fin 0) (Fin 0)
     ''simpson'' \<noteq> Inl UnrecognizedQuadratureMethod"
proof -
  have "(1::real) \<le> (1 - exp (- 1)) * 2"
    using exp_minus_one_le_half by simp
  then show ?thesis
    by (simp add: iaf_encode_def iaf_encode_full_def compute_y_leaky_def get_def fl_defs Let_def)
qed

text \<open>
  Claim C8, as amended.  For a non-empty signal the encoder fails with
  \<open>ResolutionError\<close> whenever \<open>dte\<close> exceeds \<open>dt\<close> or is negative; no spike train is
  returned.
\<close>

theorem resolution_error_nonempty:
  assumes "u \<noteq> []" and "fl_gt dte dt \<or> fl_lt dte (Fin 0)"
  shows "iaf_encode resample u dt b d R C dte y interval quad_method = Inl ResolutionError
       \<and> iaf_encode_full resample u dt b d R C dte y interval quad_method = Inl ResolutionError"
  using assms by (auto simp add: iaf_encode_def iaf_encode_full_def Let_def)

text \<open>
  The signal \<open>[0]\<close> with \<open>dt = 1\<close>: \<open>dte = 2\<close> and \<open>dte = -1\<close> are both rejected.
\<close>

theorem resolution_error_nonempty_witness:
  "[Fin 0] \<noteq> [] \<and> fl_gt (Fin 2) (Fin 1) \<and> fl_lt (Fin (- 1)) (Fin 0)
   \<and> iaf_encode (\<lambda>u n. u) [Fin 0] (Fin 1) (Fin 2) (Fin 1) PInf (Fin 1) (Fin 2) (Fin 0) (Fin 0)
        ''trapz'' = Inl ResolutionError
   \<and> iaf_encode (\<lambda>u n. u) [Fin 0] (Fin 1) (Fin 2) (Fin 1) PInf (Fin 1) (Fin (- 1)) (Fin 0) (Fin 0)
        ''trapz'' = Inl ResolutionError"
  using resolution_error_nonempty [of "[Fin 0]" "Fin 2" "Fin 1" "\<lambda>u n. u" "Fin 2" "Fin 1" PInf
      "Fin 1" "Fin 0" "Fin 0" "''trapz''"]
    resolution_error_nonempty [of "[Fin 0]" "Fin (- 1)" "Fin 1" "\<lambda>u n. u" "Fin 2" "Fin 1" PInf
      "Fin 1" "Fin 0" "Fin 0" "''trapz''"]
  by (simp add: fl_gt_def fl_lt_def)

text \<open>
  Claim C8 as stated fails for the empty signal: the test \<open>nu == 0\<close> returns the empty
  spike train before \<open>dte\<close> is looked at.
\<close>

theorem empty_signal_skips_resolution_check:
  "fl_gt (Fin 2) (Fin 1)
   \<and> iaf_encode (\<lambda>u n. u) [] (Fin 1) (Fin 2) (Fin 1) PInf (Fin 1) (Fin 2) (Fin 0) (Fin 0)
        ''trapz'' = Inr []
   \<and> fl_lt (Fin (- 1)) (Fin 0)
   \<and> iaf_encode (\<lambda>u n. u) [] (Fin 1) (Fin 2) (Fin 1) PInf (Fin 1) (Fin (- 1)) (Fin 0) (Fin 0)
        ''trapz'' = Inr []"
  by (simp add: iaf_encode_def iaf_encode_full_def fl_gt_def fl_lt_def)

subsection \<open>The emitted intervals\<close>

lemma fl_lt_Fin: "fl_lt (Fin x) (Fin y) \<longleftrightarrow> x < y"
  by (simp add: fl_lt_def)

lemma encode_loop_intervals:
  assumes "encode_loop compute_y (Fin h) d js y (Fin i0) s = Inr (s', y', interval')"
    and "0 < h" and "0 \<le> i0" and "long_intervals h s"
  shows "long_intervals h s'"
  using assms
proof (induction js arbitrary: y i0 s)
  case Nil
  then show ?case by simp
next
  case (Cons j js)
  from Cons.prems(1) obtain y2 where y2: "compute_y y j = Inr y2"
    by (cases "compute_y y j") simp_all
  show ?case
  proof (cases "fl_ge y2 d")
    case True
    with Cons.prems(1) y2
    have run: "encode_loop compute_y (Fin h) d js (Fin 0) (Fin 0) (s @ [Fin (i0 + h)])
                 = Inr (s', y', interval')"
      by (simp add: fl_add_def)
    have "long_intervals h (s @ [Fin (i0 + h)])"
      using Cons.prems(3,4) by (auto simp add: long_intervals_def)
    then show ?thesis
      using Cons.IH [OF run Cons.prems(2)] by simp
  next
    case False
    with Cons.prems(1) y2
    have run: "encode_loop compute_y (Fin h) d js y2 (Fin (i0 + h)) s = Inr (s', y', interval')"
      by (simp add: fl_add_def)
    have "0 \<le> i0 + h" using Cons.prems(2,3) by simp
    then show ?thesis
      using Cons.IH [OF run Cons.prems(2) _ Cons.prems(4)] by simp
  qed
qed

lemma cumsum_from_increasing:
  assumes "long_intervals h s" and "0 < h"
  shows "sorted_wrt fl_lt (cumsum_from (Fin a) s)
       \<and> (\<forall>t\<in>set (cumsum_from (Fin a) s). \<exists>r. t = Fin r \<and> a < r)"
  using assms(1)
proof (induction s arbitrary: a)
  case Nil
  show ?case by simp
next
  case (Cons x s)
  from Cons.prems obtain r where r: "x = Fin r" "h \<le> r"
    by (auto simp add: long_intervals_def)
  have rest: "long_intervals h s" using Cons.prems by (simp add: long_intervals_def)
  have ih: "sorted_wrt fl_lt (cumsum_from (Fin (a + r)) s)
       \<and> (\<forall>t\<in>set (cumsum_from (Fin (a + r)) s). \<exists>q. t = Fin q \<and> a + r < q)"
    by (rule Cons.IH [OF rest])
  have step: "fl_add (Fin a) x = Fin (a + r)" by (simp add: r fl_add_def)
  have "0 < r" using r assms(2) by simp
  then show ?case
    using ih by (auto simp add: step fl_lt_Fin)
qed

lemma cumsum_increasing:
  assumes "long_intervals h s" and "0 < h"
  shows "sorted_wrt fl_lt (cumsum s)"
proof (cases s)
  case Nil
  then show ?thesis by simp
next
  case (Cons x xs)
  from assms(1) Cons obtain r where r: "x = Fin r" "h \<le> r"
    by (auto simp add: long_intervals_def)
  have rest: "long_intervals h xs" using assms(1) Cons by (simp add: long_intervals_def)
  have "sorted_wrt fl_lt (cumsum_from (Fin r) xs)
       \<and> (\<forall>t\<in>set (cumsum_from (Fin r) xs). \<exists>q. t = Fin q \<and> r < q)"
    by (rule cumsum_from_increasing [OF rest assms(2)])
  then show ?thesis
    by (auto simp add: Cons r fl_lt_Fin)
qed

lemma encode_loop_intervals_start:
  assumes "encode_loop compute_y (Fin h) d js y (Fin i0) [] = Inr (s', y', interval')"
    and "0 < h" and "0 \<le> i0"
  shows "long_intervals h s'"
  by (rule encode_loop_intervals [OF assms]) (simp add: long_intervals_def)

lemma encode_full_valid_dte:
  assumes "iaf_encode_full resample u (Fin dtr) b d R C (Fin dter) y interval quad_method
             = Inr (s, y', interval')"
    and "u \<noteq> []"
  shows "0 \<le> dter" and "dter \<le> dtr"
  using assms
  by (auto simp add: iaf_encode_full_def Let_def fl_gt_def fl_lt_def split: if_splits)

lemma encode_full_intervals:
  assumes run: "iaf_encode_full resample u (Fin dtr) b d R C (Fin dter) y (Fin i0) quad_method
                  = Inr (s, y', interval')"
    and dtr: "0 < dtr" and i0: "0 \<le> i0"
  shows "long_intervals (if dter = 0 then dtr else dter) s"
proof (cases "u = []")
  case True
  with run have "s = []" by (simp add: iaf_encode_full_def)
  then show ?thesis by (simp add: long_intervals_def)
next
  case False
  have v: "0 \<le> dter" "dter \<le> dtr"
    using encode_full_valid_dte [OF run False] by simp_all
  have g: "\<not> fl_gt (Fin dter) (Fin dtr)" "\<not> fl_lt (Fin dter) (Fin 0)"
    using v by (simp_all add: fl_gt_def fl_lt_def)
  show ?thesis
  proof (cases "dter = 0")
    case True
    then have "\<not> fl_ne (Fin dter) (Fin 0)" by (simp add: fl_ne_def)
    then show ?thesis
      using run False g True dtr i0
      by (auto simp add: iaf_encode_full_def Let_def split: if_splits
          dest: encode_loop_intervals_start)
  next
    case nz: False
    then have ne: "fl_ne (Fin dter) (Fin 0)" by (simp add: fl_ne_def)
    have "0 < dter" using v nz by simp
    then show ?thesis
      using run False g nz ne i0
      by (auto simp add: iaf_encode_full_def Let_def split: if_splits sum.splits
          dest: encode_loop_intervals_start)
  qed
qed

text \<open>
  Claim C10, as amended.  With \<open>dt > 0\<close>, \<open>dte \<ge> 0\<close> and an initial interval counter
  \<open>interval \<ge> 0\<close>, every interval the encoder emits is at least the step it integrates
  with, which is \<open>dte\<close> when the signal is resampled (\<open>dte \<noteq> 0\<close>) and \<open>dt\<close> otherwise;
  hence it is positive, and the spike times \<open>cumsum s\<close> increase strictly.
\<close>

theorem intervals_at_least_step:
  assumes "iaf_encode_full resample u (Fin dtr) b d R C (Fin dter) y (Fin i0) quad_method
             = Inr (s, y', interval')"
    and "0 < dtr" and "0 \<le> dter" and "0 \<le> i0"
  shows "(\<forall>x\<in>set s. fl_ge x (Fin (if dter = 0 then dtr else dter)) \<and> fl_gt x (Fin 0))
       \<and> sorted_wrt fl_lt (cumsum s)"
proof -
  let ?h = "if dter = 0 then dtr else dter"
  have h: "0 < ?h" using assms(2,3) by auto
  have li: "long_intervals ?h s"
    by (rule encode_full_intervals [OF assms(1,2,4)])
  have "\<forall>x\<in>set s. fl_ge x (Fin ?h) \<and> fl_gt x (Fin 0)"
  proof
    fix x assume "x \<in> set s"
    with li obtain r where "x = Fin r" "?h \<le> r" by (auto simp add: long_intervals_def)
    then show "fl_ge x (Fin ?h) \<and> fl_gt x (Fin 0)"
      using h by (simp add: fl_ge_def fl_gt_def fl_le_def fl_lt_def)
  qed
  moreover have "sorted_wrt fl_lt (cumsum s)"
    by (rule cumsum_increasing [OF li h])
  ultimately show ?thesis by blast
qed

lemma resampled_run:
  "iaf_encode_full (\<lambda>u n. replicate n (Fin 1)) [Fin 1, Fin 1] (Fin 1) (Fin 0) (Fin (1/4)) PInf
     (Fin 1) (Fin (1/2)) (Fin 0) (Fin 0) ''rect'' = Inr ([Fin (1/2), Fin (1/2)], Fin 0, Fin 0)"
  by (simp add: iaf_encode_full_def compute_y_rect_def get_def py_int_def fl_defs upt_2 Let_def)

text \<open>
  The constant signal \<open>[1, 1]\<close> with \<open>dt = 1\<close>, resampled at \<open>dte = 1/2\<close> (the resampling
  of a constant signal is constant), \<open>b = 0\<close>, \<open>d = 1/4\<close>, \<open>C = 1\<close>, ideal neuron,
  rectangular rule: two intervals of length \<open>1/2\<close>.
\<close>

theorem intervals_at_least_step_witness:
  "iaf_encode_full (\<lambda>u n. replicate n (Fin 1)) [Fin 1, Fin 1] (Fin 1) (Fin 0) (Fin (1/4)) PInf
     (Fin 1) (Fin (1/2)) (Fin 0) (Fin 0) ''rect'' = Inr ([Fin (1/2), Fin (1/2)], Fin 0, Fin 0)
   \<and> (0::real) < 1 \<and> (0::real) \<le> 1/2 \<and> (0::real) \<le> 0
   \<and> fl_ge (Fin (1/2)) (Fin (1/2)) \<and> fl_gt (Fin (1/2)) (Fin 0)
   \<and> cumsum [Fin (1/2), Fin (1/2)] = [Fin (1/2), Fin 1]
   \<and> fl_lt (Fin (1/2)) (Fin 1)"
  using intervals_at_least_step [OF resampled_run] resampled_run
  by (simp add: fl_add_def)

text \<open>
  Claim C10 as stated fails when the signal is resampled: on the input above the
  emitted intervals are \<open>1/2\<close>, below \<open>dt = 1\<close>.
\<close>

theorem resampled_interval_below_dt:
  "iaf_encode (\<lambda>u n. replicate n (Fin 1)) [Fin 1, Fin 1] (Fin 1) (Fin 0) (Fin (1/4)) PInf
     (Fin 1) (Fin (1/2)) (Fin 0) (Fin 0) ''rect'' = Inr [Fin (1/2), Fin (1/2)]
   \<and> \<not> fl_ge (Fin (1/2)) (Fin 1)"
  by (simp add: iaf_encode_def resampled_run fl_ge_def fl_le_def)

subsection \<open>The decoders\<close>

lemma length_cumsum_from: "length (cumsum_from acc xs) = length xs"
  by (induction xs arbitrary: acc) simp_all

lemma length_cumsum: "length (cumsum xs) = length xs"
  by (cases xs) (simp_all add: length_cumsum_from)

lemma np_arange_grid:
  "dtr \<noteq> 0 \<Longrightarrow> \<exists>t. np_arange (Fin durr) (Fin dtr) = Inr t"
  by (simp add: np_arange_def fl_div_def)

text \<open>
  Claim C2, as amended.  For a spike train with at least two elements, a finite
  duration and a step \<open>dt > 0\<close>, the decoders that reach their quanta build the same
  vector, \<open>C d - b s[1:]\<close> when \<open>R\<close> is infinite and
  \<open>C (d + b R (exp(-s[1:]/(R C)) - 1))\<close> otherwise: the dense decoder when \<open>R\<close> is
  infinite or \<open>R C \<noteq> 0\<close>, the fast decoder when \<open>M \<noteq> 0\<close>, the Vandermonde decoder
  always.
\<close>

theorem quanta_agree:
  assumes "2 \<le> length s" and "0 < dtr"
  shows "(isinf R \<or> fl_mul R C \<noteq> Fin 0 \<longrightarrow>
            (\<exists>sys. iaf_decode s (Fin durr) (Fin dtr) bw b d R C = Inr sys
               \<and> ds_q sys = spec_quanta s b d R C))
       \<and> (M \<noteq> 0 \<longrightarrow>
            (\<exists>sys. iaf_decode_fast s (Fin durr) (Fin dtr) bw M b d R C = Inr sys
               \<and> fs_q sys = spec_quanta s b d R C))
       \<and> (\<exists>sys. iaf_decode_vander s bw b d R C = Inr sys \<and> vs_q sys = spec_quanta s b d R C)"
proof -
  obtain t where t: "np_arange (Fin durr) (Fin dtr) = Inr t"
    using np_arange_grid [of dtr durr] assms(2) by auto
  show ?thesis
  proof (intro conjI impI)
    assume "isinf R \<or> fl_mul R C \<noteq> Fin 0"
    then show "\<exists>sys. iaf_decode s (Fin durr) (Fin dtr) bw b d R C = Inr sys
                 \<and> ds_q sys = spec_quanta s b d R C"
      using assms(1) by (auto simp add: iaf_decode_def t spec_quanta_def Let_def)
  next
    assume "M \<noteq> 0"
    then show "\<exists>sys. iaf_decode_fast s (Fin durr) (Fin dtr) bw M b d R C = Inr sys
                 \<and> fs_q sys = spec_quanta s b d R C"
      using assms(1) by (simp add: iaf_decode_fast_def t spec_quanta_def Let_def)
  next
    show "\<exists>sys. iaf_decode_vander s bw b d R C = Inr sys \<and> vs_q sys = spec_quanta s b d R C"
      using assms(1) by (auto simp add: iaf_decode_vander_def spec_quanta_def Let_def)
  qed
qed

text \<open>
  The train \<open>[1, 2, 3]\<close> with \<open>dur = 1\<close>, \<open>dt = 1/2\<close>, \<open>b = 1\<close>, \<open>d = 4\<close>, \<open>C = 1\<close>, an
  ideal neuron and \<open>M = 5\<close>: the quanta are \<open>[2, 1]\<close> in each decoder.
\<close>

theorem quanta_agree_witness:
  "(2::nat) \<le> length [Fin 1, Fin 2, Fin 3] \<and> (0::real) < 1/2 \<and> isinf PInf \<and> (5::int) \<noteq> 0
   \<and> (\<exists>sys. iaf_decode [Fin 1, Fin 2, Fin 3] (Fin 1) (Fin (1/2)) (Fin 1) (Fin 1) (Fin 4) PInf
              (Fin 1) = Inr sys
          \<and> ds_q sys = [Fin 2, Fin 1])
   \<and> (\<exists>sys. iaf_decode_fast [Fin 1, Fin 2, Fin 3] (Fin 1) (Fin (1/2)) (Fin 1) 5 (Fin 1) (Fin 4)
              PInf (Fin 1) = Inr sys
          \<and> fs_q sys = [Fin 2, Fin 1])
   \<and> (\<exists>sys. iaf_decode_vander [Fin 1, Fin 2, Fin 3] (Fin 1) (Fin 1) (Fin 4) PInf (Fin 1) = Inr sys
          \<and> vs_q sys = [Fin 2, Fin 1])"
  using quanta_agree [of "[Fin 1, Fin 2, Fin 3]" "1/2" PInf "Fin 1" 1 "Fin 1" "Fin 1" "Fin 4" 5]
  by (simp add: spec_quanta_def fl_defs)

text \<open>
  Claim C2 as stated fails where a decoder divides by zero before it computes the
  quanta.  On the train \<open>[1, 2, 3]\<close> with \<open>b = 1\<close>, \<open>d = 4\<close>, \<open>C = 1\<close>: with an ideal neuron
  and \<open>M = 0\<close> the fast decoder raises at \<open>1j*bw/M\<close> while the dense decoder builds the
  quanta \<open>[2, 1]\<close>; with \<open>R = 0\<close> the dense decoder raises at its first matrix entry
  while the Vandermonde decoder builds the quanta \<open>[4, 4]\<close>.
\<close>

theorem quanta_not_reached:
  "iaf_decode_fast [Fin 1, Fin 2, Fin 3] (Fin 1) (Fin (1/2)) (Fin 1) 0 (Fin 1) (Fin 4) PInf (Fin 1)
     = Inl ZeroDivisionError
   \<and> map_sum id ds_q
       (iaf_decode [Fin 1, Fin 2, Fin 3] (Fin 1) (Fin (1/2)) (Fin 1) (Fin 1) (Fin 4) PInf (Fin 1))
     = Inr [Fin 2, Fin 1]
   \<and> iaf_decode [Fin 1, Fin 2, Fin 3] (Fin 1) (Fin (1/2)) (Fin 1) (Fin 1) (Fin 4) (Fin 0) (Fin 1)
     = Inl ZeroDivisionError
   \<and> map_sum id vs_q
       (iaf_decode_vander [Fin 1, Fin 2, Fin 3] (Fin 1) (Fin 1) (Fin 4) (Fin 0) (Fin 1))
     = Inr [Fin 4, Fin 4]"
  by (simp add: iaf_decode_fast_def iaf_decode_def iaf_decode_vander_def np_arange_def fl_defs
      Let_def)

lemma first_error_member:
  "first_error es = Some err \<Longrightarrow> Some err \<in> set es"
  by (induction es rule: first_error.induct) simp_all

lemma pop_never_insufficient:
  assumes "first_error (map (pop_row_error Nsh_list b_list d_list R_list C_list) ls) = Some err"
  shows "err \<noteq> InsufficientSpikes"
proof -
  have "Some err \<in> set (map (pop_row_error Nsh_list b_list d_list R_list C_list) ls)"
    using assms by (rule first_error_member)
  then show ?thesis
    by (auto simp add: pop_row_error_def split: if_splits)
qed

lemma pop_not_insufficient:
  "iaf_decode_pop s_list bw b_list d_list R_list C_list \<noteq> Inl InsufficientSpikes"
  by (auto simp add: iaf_decode_pop_def Let_def split: option.splits
      dest: pop_never_insufficient)

text \<open>
  Claim C3, as amended.  For a spike train with fewer than two intervals the dense
  decoder and the fast decoder fail with \<open>InsufficientSpikes\<close>.  The population decoder
  does not test the length of its trains and never fails with that error; such a train
  has no midpoint.
\<close>

theorem insufficient_spikes_dense_fast:
  assumes "length s < 2"
  shows "iaf_decode s dur dt bw b d R C = Inl InsufficientSpikes
       \<and> iaf_decode_fast s dur dt bw M b d R C = Inl InsufficientSpikes
       \<and> iaf_decode_pop (s # s_list) bw b_list d_list R_list C_list \<noteq> Inl InsufficientSpikes
       \<and> midpoints (cumsum s) = []"
proof (intro conjI)
  show "iaf_decode s dur dt bw b d R C = Inl InsufficientSpikes"
    using assms by (simp add: iaf_decode_def Let_def)
  show "iaf_decode_fast s dur dt bw M b d R C = Inl InsufficientSpikes"
    using assms by (simp add: iaf_decode_fast_def Let_def)
  show "iaf_decode_pop (s # s_list) bw b_list d_list R_list C_list \<noteq> Inl InsufficientSpikes"
    by (rule pop_not_insufficient)
  show "midpoints (cumsum s) = []"
    using assms by (cases s) (simp_all add: midpoints_def)
qed

text \<open>
  A train of length one.
\<close>

theorem insufficient_spikes_dense_fast_witness:
  "length [Fin 1] < 2
   \<and> iaf_decode [Fin 1] (Fin 1) (Fin (1/2)) (Fin 1) (Fin 1) (Fin 1) PInf (Fin 1)
       = Inl InsufficientSpikes
   \<and> iaf_decode_fast [Fin 1] (Fin 1) (Fin (1/2)) (Fin 1) 5 (Fin 1) (Fin 1) PInf (Fin 1)
       = Inl InsufficientSpikes
   \<and> iaf_decode_pop [[Fin 1]] (Fin 1) [Fin 1] [Fin 1] [PInf] [Fin 1] \<noteq> Inl InsufficientSpikes
   \<and> midpoints (cumsum [Fin 1]) = []"
  using insufficient_spikes_dense_fast [of "[Fin 1]" "Fin 1" "Fin (1/2)" "Fin 1" "Fin 1" "Fin 1"
      PInf "Fin 1" 5 "[]" "[Fin 1]" "[Fin 1]" "[PInf]" "[Fin 1]"]
  by simp

text \<open>
  Claim C3 as stated fails for the other two decoders.  The population decoder, given a
  train of length one beside a train of length two, builds the one by one system of
  the second encoder: the short train has no midpoint and adds no equation.  The
  Vandermonde decoder, given a train of length one, computes \<open>ns = 0\<close> and \<open>n = -1\<close> and
  hands an empty system to the solver.
\<close>

theorem short_train_accepted:
  "iaf_decode_pop [[Fin 1], [Fin 1, Fin 2]] (Fin 1) [Fin 1, Fin 1] [Fin 1, Fin 1] [PInf, PInf]
       [Fin 1, Fin 1]
     = Inr \<lparr>pop_tsh = [[], [Fin 2]],
            pop_blocks = [[[], []], [[[]], [[SiEntry (Fin 1) (Fin (- 1))]]]],
            pop_G = [[SiEntry (Fin 1) (Fin (- 1))]],
            pop_q = [Fin (- 1)]\<rparr>
   \<and> iaf_decode_vander [Fin 1] (Fin 1) (Fin 1) (Fin 1) PInf (Fin 1)
     = Inr \<lparr>vs_ns = 0, vs_n = - 1, vs_z = [], vs_V = [], vs_P = [], vs_D = [], vs_q = []\<rparr>"
  by (simp add: iaf_decode_pop_def iaf_decode_vander_def midpoints_def assemble_def
      vander_nodes_def vander_matrix_def triu_ones_def si_entry_def upt_2 fl_defs Let_def)

lemma vander_nodes_matrix:
  assumes "s \<noteq> []"
  shows "drops_last_spike bw s
           \<lparr>vs_ns = int (length s) - 1, vs_n = int (length s) - 2,
            vs_z = vander_nodes bw (cumsum s) (int (length s) - 2),
            vs_V = vander_matrix (vander_nodes bw (cumsum s) (int (length s) - 2)),
            vs_P = P, vs_D = D, vs_q = q\<rparr>"
  by (simp add: drops_last_spike_def vander_nodes_def vander_matrix_def length_cumsum nth_butlast)

text \<open>
  Claim C9.  Each Vandermonde variant drops the final spike: from a spike train \<open>s\<close> it
  builds \<open>ns = len(s) - 1\<close> nodes \<open>exp(j 2 bw ts_i / n)\<close>, \<open>n = ns - 1\<close>, from the spike
  times but the last, and the \<open>ns\<close> by \<open>ns\<close> Vandermonde matrix of these nodes, which
  is the system given to the solver.  The threshold-insensitive variant needs two
  spikes: with one it fails on the last place of an empty vector.
\<close>

theorem vander_drops_last_spike:
  assumes "s \<noteq> []"
  shows "(\<exists>sys. asdm_decode_vander s bw b d k sgn_first = Inr sys \<and> drops_last_spike bw s sys)
       \<and> (\<exists>sys. iaf_decode_vander s bw b d R C = Inr sys \<and> drops_last_spike bw s sys)
       \<and> (2 \<le> length s \<longrightarrow>
            (\<exists>sys a bh. asdm_decode_vander_ins s bw b sgn_first = Inr (sys, a, bh)
               \<and> drops_last_spike bw s sys))"
proof -
  have ns: "\<not> int (length s) - 1 < 0" using assms by (cases s) simp_all
  show ?thesis
  proof (intro conjI impI)
    show "\<exists>sys. asdm_decode_vander s bw b d k sgn_first = Inr sys \<and> drops_last_spike bw s sys"
      using ns by (simp add: asdm_decode_vander_def Let_def vander_nodes_matrix [OF assms])
    show "\<exists>sys. iaf_decode_vander s bw b d R C = Inr sys \<and> drops_last_spike bw s sys"
      using ns by (simp add: iaf_decode_vander_def Let_def vander_nodes_matrix [OF assms])
    assume "2 \<le> length s"
    then have "int (length s) - 1 \<noteq> 0" by simp
    then show "\<exists>sys a bh. asdm_decode_vander_ins s bw b sgn_first = Inr (sys, a, bh)
                 \<and> drops_last_spike bw s sys"
      using ns by (simp add: asdm_decode_vander_ins_def Let_def vander_nodes_matrix [OF assms])
  qed
qed

text \<open>
  A train of three spikes gives two nodes and a two by two matrix in each variant.
\<close>

theorem vander_drops_last_spike_witness:
  "[Fin 1, Fin 1, Fin 1] \<noteq> [] \<and> (2::nat) \<le> length [Fin 1, Fin 1, Fin 1]
   \<and> (\<exists>sys. asdm_decode_vander [Fin 1, Fin 1, Fin 1] (Fin 1) (Fin 1) (Fin 1) (Fin 1) (- 1) = Inr sys
          \<and> vs_ns sys = 2 \<and> vs_n sys = 1 \<and> length (vs_z sys) = 2 \<and> length (vs_V sys) = 2)
   \<and> (\<exists>sys. iaf_decode_vander [Fin 1, Fin 1, Fin 1] (Fin 1) (Fin 1) (Fin 1) PInf (Fin 1) = Inr sys
          \<and> vs_ns sys = 2 \<and> vs_n sys = 1 \<and> length (vs_z sys) = 2 \<and> length (vs_V sys) = 2)
   \<and> (\<exists>sys a bh. asdm_decode_vander_ins [Fin 1, Fin 1, Fin 1] (Fin 1) (Fin 1) (- 1)
            = Inr (sys, a, bh)
          \<and> vs_ns sys = 2 \<and> vs_n sys = 1 \<and> length (vs_z sys) = 2 \<and> length (vs_V sys) = 2)"
  using vander_drops_last_spike [of "[Fin 1, Fin 1, Fin 1]" "Fin 1" "Fin 1" "Fin 1" "Fin 1" "- 1"
      PInf "Fin 1"]
  by (auto simp add: drops_last_spike_def)

lemma first_error_none:
  "\<forall>e\<in>set es. e = None \<Longrightarrow> first_error es = None"
  by (induction es) auto

text \<open>
  On a population whose encoders are all ideal, or all leaky with \<open>R_l C_l \<noteq> 0\<close>, the
  decoder does what the specification says: every block \<open>(l, m)\<close> has the entries of
  the leak status of encoder \<open>l\<close>, and the quanta of each encoder follow from its own
  \<open>(b, d, R, C)\<close>.
\<close>

lemma pop_homogeneous:
  assumes "s_list \<noteq> []"
    and "length b_list = length s_list" and "length d_list = length s_list"
    and "length R_list = length s_list" and "length C_list = length s_list"
    and "list_all isinf R_list
         \<or> (\<forall>l<length s_list. \<not> isinf (R_list ! l) \<and> fl_mul (R_list ! l) (C_list ! l) \<noteq> Fin 0)"
  shows "\<exists>sys. iaf_decode_pop s_list bw b_list d_list R_list C_list = Inr sys
     \<and> (\<forall>l<length s_list. \<forall>m<length s_list.
          \<forall>n<length (midpoints (cumsum (s_list ! l))).
          \<forall>k<length (midpoints (cumsum (s_list ! m))).
            pop_blocks sys ! l ! m ! n ! k =
              (if isinf (R_list ! l)
               then si_entry bw (cumsum (s_list ! l)) (midpoints (cumsum (s_list ! m))) n k
               else ei_entry (fl_mul (R_list ! l) (C_list ! l)) bw
                      (cumsum (s_list ! l)) (midpoints (cumsum (s_list ! m))) n k))
     \<and> pop_q sys =
         concat (map (\<lambda>l. spec_quanta (s_list ! l) (b_list ! l) (d_list ! l) (R_list ! l)
                            (C_list ! l))
                     [0..<length s_list])"
proof (cases "list_all isinf R_list")
  case True
  have inf: "\<And>l. l < length s_list \<Longrightarrow> isinf (R_list ! l)"
    using True assms(4) by (simp add: list_all_length)
  have q: "map (\<lambda>l. map (\<lambda>x. fl_sub (fl_mul (C_list ! l) (d_list ! l)) (fl_mul (b_list ! l) x))
                       (tl (s_list ! l))) [0..<length s_list]
         = map (\<lambda>l. spec_quanta (s_list ! l) (b_list ! l) (d_list ! l) (R_list ! l) (C_list ! l))
             [0..<length s_list]"
    by (rule map_cong) (simp_all add: spec_quanta_def inf)
  show ?thesis
    using True assms(1-5) inf
    by (simp add: iaf_decode_pop_def Let_def q)
next
  case False
  with assms(6) have leaky:
    "\<And>l. l < length s_list \<Longrightarrow> \<not> isinf (R_list ! l) \<and> fl_mul (R_list ! l) (C_list ! l) \<noteq> Fin 0"
    by blast
  have ok: "\<And>Nsh_list. first_error (map (pop_row_error Nsh_list b_list d_list R_list C_list)
                               [0..<length s_list]) = None"
    by (rule first_error_none) (auto simp add: pop_row_error_def assms(2-5) leaky)
  have q: "map (\<lambda>l. map (\<lambda>x. fl_mul (C_list ! l) (fl_add (d_list ! l)
                                 (fl_mul (fl_mul (b_list ! l) (R_list ! l))
                                    (fl_sub (fl_exp (fl_div (fl_neg x)
                                       (fl_mul (R_list ! l) (C_list ! l)))) (Fin 1)))))
                       (tl (s_list ! l))) [0..<length s_list]
         = map (\<lambda>l. spec_quanta (s_list ! l) (b_list ! l) (d_list ! l) (R_list ! l) (C_list ! l))
             [0..<length s_list]"
    by (rule map_cong) (simp_all add: spec_quanta_def leaky)
  show ?thesis
    using False assms(1-5) leaky
    by (simp add: iaf_decode_pop_def Let_def ok q)
qed

text \<open>
  Two leaky encoders with the train \<open>[1, 2]\<close>, \<open>R = [1, 2]\<close> and \<open>C = [1, 1]\<close>: block
  \<open>(1, 0)\<close> has the exponential-integral entry with \<open>RC = 2\<close>.
\<close>

lemma pop_homogeneous_example:
  "\<exists>sys. iaf_decode_pop [[Fin 1, Fin 2], [Fin 1, Fin 2]] (Fin 1) [Fin 1, Fin 1] [Fin 1, Fin 1]
            [Fin 1, Fin 2] [Fin 1, Fin 1] = Inr sys
      \<and> pop_blocks sys ! 1 ! 0 ! 0 ! 0 = EiInside (Fin 2) (Fin 1) (Fin 1) (Fin 3) (Fin 2)"
proof -
  have leaky: "\<forall>l<length [[Fin 1, Fin 2], [Fin 1, Fin 2]].
      \<not> isinf ([Fin 1, Fin 2] ! l) \<and> fl_mul ([Fin 1, Fin 2] ! l) ([Fin 1, Fin 1] ! l) \<noteq> Fin 0"
    by (simp add: less_Suc_eq isinf_def fl_mul_def)
  obtain sys where run: "iaf_decode_pop [[Fin 1, Fin 2], [Fin 1, Fin 2]] (Fin 1) [Fin 1, Fin 1]
        [Fin 1, Fin 1] [Fin 1, Fin 2] [Fin 1, Fin 1] = Inr sys"
    and blocks: "\<forall>l<length [[Fin 1, Fin 2], [Fin 1, Fin 2]].
        \<forall>m<length [[Fin 1, Fin 2], [Fin 1, Fin 2]].
          \<forall>n<length (midpoints (cumsum ([[Fin 1, Fin 2], [Fin 1, Fin 2]] ! l))).
          \<forall>k<length (midpoints (cumsum ([[Fin 1, Fin 2], [Fin 1, Fin 2]] ! m))).
            pop_blocks sys ! l ! m ! n ! k =
              (if isinf ([Fin 1, Fin 2] ! l)
               then si_entry (Fin 1) (cumsum ([[Fin 1, Fin 2], [Fin 1, Fin 2]] ! l))
                      (midpoints (cumsum ([[Fin 1, Fin 2], [Fin 1, Fin 2]] ! m))) n k
               else ei_entry (fl_mul ([Fin 1, Fin 2] ! l) ([Fin 1, Fin 1] ! l)) (Fin 1)
                      (cumsum ([[Fin 1, Fin 2], [Fin 1, Fin 2]] ! l))
                      (midpoints (cumsum ([[Fin 1, Fin 2], [Fin 1, Fin 2]] ! m))) n k)"
    using pop_homogeneous [of "[[Fin 1, Fin 2], [Fin 1, Fin 2]]" "[Fin 1, Fin 1]"
        "[Fin 1, Fin 1]" "[Fin 1, Fin 2]" "[Fin 1, Fin 1]" "Fin 1"] leaky
    by auto
  have "pop_blocks sys ! 1 ! 0 ! 0 ! 0 = EiInside (Fin 2) (Fin 1) (Fin 1) (Fin 3) (Fin 2)"
    using blocks [rule_format, of 1 0 0 0]
    by (simp add: midpoints_def ei_entry_def fl_defs)
  then show ?thesis using run by blast
qed

text \<open>
  Claim C4.  Each block of a mixed population is to follow the leak status of its own
  encoder.  The decoder tests \<open>all(isinf(R_list))\<close> once and, when one encoder is leaky,
  uses the leaky forms for all.  With an ideal first encoder and a leaky second one
  (\<open>R = [inf, 1]\<close>, both with the train \<open>[1, 2]\<close>, \<open>b = d = C = 1\<close>, \<open>bw = 1\<close>) the blocks of
  the first encoder are built from the exponential-integral form with \<open>RC = inf\<close>, not
  from the sine-integral entry, and its quantum is
  \<open>C (d + b inf (exp(-2/inf) - 1))\<close>, which is nan, not \<open>C d - b s[1:] = -1\<close>.
\<close>

theorem mixed_population_uses_leaky_forms:
  "iaf_decode_pop [[Fin 1, Fin 2], [Fin 1, Fin 2]] (Fin 1) [Fin 1, Fin 1] [Fin 1, Fin 1]
       [PInf, Fin 1] [Fin 1, Fin 1]
     = Inr \<lparr>pop_tsh = [[Fin 2], [Fin 2]],
            pop_blocks =
              [[[[EiInside PInf (Fin 1) (Fin 1) (Fin 3) (Fin 2)]],
                [[EiInside PInf (Fin 1) (Fin 1) (Fin 3) (Fin 2)]]],
               [[[EiInside (Fin 1) (Fin 1) (Fin 1) (Fin 3) (Fin 2)]],
                [[EiInside (Fin 1) (Fin 1) (Fin 1) (Fin 3) (Fin 2)]]]],
            pop_G =
              [[EiInside PInf (Fin 1) (Fin 1) (Fin 3) (Fin 2),
                EiInside PInf (Fin 1) (Fin 1) (Fin 3) (Fin 2)],
               [EiInside (Fin 1) (Fin 1) (Fin 1) (Fin 3) (Fin 2),
                EiInside (Fin 1) (Fin 1) (Fin 1) (Fin 3) (Fin 2)]],
            pop_q = [NaN, Fin (exp (- 2))]\<rparr>
   \<and> si_entry (Fin 1) (cumsum [Fin 1, Fin 2]) (midpoints (cumsum [Fin 1, Fin 2])) 0 0
       = SiEntry (Fin 1) (Fin (- 1))
   \<and> spec_quanta [Fin 1, Fin 2] (Fin 1) (Fin 1) PInf (Fin 1) = [Fin (- 1)]"
  by (simp add: iaf_decode_pop_def pop_row_error_def midpoints_def assemble_def ei_entry_def
      si_entry_def spec_quanta_def upt_2 fl_defs Let_def)

end
